theory Spec2Isabelle
  imports Complex_Main "HOL-Library.Word"
begin

unbundle bit_operations_syntax

section \<open>Process termination and undefined behaviour\<close>

text \<open>
  Every \<^verbatim>\<open>exit(code)\<close> of the source is a value \<open>Exit code\<close>. \<open>Undefined\<close> stands for
  a run that leaves the behaviour the C++ standard defines: an array indexed out of its
  bounds, an uninitialised local read, a value-returning function left without a
  \<^verbatim>\<open>return\<close>.
\<close>

datatype failure = Exit int | Undefined

definition EXIT_FAILURE :: int where
  "EXIT_FAILURE = 1"

text \<open>Linux values of the two \<^verbatim>\<open>errno\<close> codes that \<^verbatim>\<open>open_msr\<close> tells apart.\<close>

definition EIO :: int where
  "EIO = 5"

definition ENXIO :: int where
  "ENXIO = 6"

section \<open>Register numbers\<close>

definition MSR_PKG_ENERGY_STATUS :: "32 word" where
  "MSR_PKG_ENERGY_STATUS = 0x611"

definition MSR_PP0_ENERGY_STATUS :: "32 word" where
  "MSR_PP0_ENERGY_STATUS = 0x639"

definition MSR_PP1_ENERGY_STATUS :: "32 word" where
  "MSR_PP1_ENERGY_STATUS = 0x641"

definition MSR_DRAM_ENERGY_STATUS :: "32 word" where
  "MSR_DRAM_ENERGY_STATUS = 0x619"

definition AMD_MSR_PACKAGE_ENERGY :: "32 word" where
  "AMD_MSR_PACKAGE_ENERGY = 0xC001029B"

section \<open>Rollover-safe energy delta (Rapl::energy_delta)\<close>

text \<open>
  \<^verbatim>\<open>uint64_t Rapl::energy_delta(uint64_t before, uint64_t after)\<close>:
  \<^verbatim>\<open>max_int\<close> is \<^verbatim>\<open>~((uint32_t) 0)\<close> widened to 64 bits; the subtraction and the
  addition are 64-bit unsigned and wrap.
\<close>

definition energy_delta :: "64 word \<Rightarrow> 64 word \<Rightarrow> 64 word" where
  "energy_delta before after =
     (let max_int = (ucast (NOT (0 :: 32 word)) :: 64 word);
          eng_delta = after - before
      in if before > after then after + (max_int - before) else eng_delta)"

section \<open>Snapshots and the engine's state\<close>

record timeval =
  tv_sec :: int
  tv_usec :: int

text \<open>
  Modelled from the spec: the declaration of \<^verbatim>\<open>rapl_state_t\<close> is in \<^verbatim>\<open>Rapl.h\<close>, which is
  not among the sources. The specification gives a snapshot four domain counters
  (package, core plane, graphics plane, DRAM), each holding a 32-bit unsigned value, and
  a capture timestamp, and a running total one accumulator per domain and a start
  timestamp; the source uses the one type for both. The fields are taken as
  \<^verbatim>\<open>uint64_t\<close>, the type of the values the code stores into them (\<^verbatim>\<open>read_msr\<close>'s
  result, masked to 32 bits) and of the parameters and the result of \<^verbatim>\<open>energy_delta\<close>.
\<close>

record rapl_state_t =
  pkg :: "64 word"
  pp0 :: "64 word"
  pp1 :: "64 word"
  dram :: "64 word"
  tsc :: timeval

text \<open>
  The members of \<^verbatim>\<open>Rapl\<close> that sampling and the power queries use. The four arrays hold
  pointers in the source; \<^verbatim>\<open>reset\<close> makes every entry point to an object of its own, and
  \<^verbatim>\<open>sample\<close> only exchanges the three snapshot pointers of one socket, so the objects
  never alias and each array is modelled as the list of the objects pointed to.
  \<^verbatim>\<open>double\<close> values are modelled as reals.
\<close>

record rapl =
  vendor :: int
  pp1_supported :: bool
  n_sockets :: int
  energy_units :: real
  fd :: "int list"
  prev_state :: "rapl_state_t list"
  current_state :: "rapl_state_t list"
  next_state :: "rapl_state_t list"
  running_total :: "rapl_state_t list"

section \<open>Register access (Rapl::open_msr, Rapl::read_msr)\<close>

text \<open>
  The outcome of \<^verbatim>\<open>open("/dev/cpu/<cpuCore>/msr", O_RDONLY)\<close> is an input: the
  descriptor returned (negative on failure) and the \<^verbatim>\<open>errno\<close> left behind.
\<close>

type_synonym open_env = "int \<Rightarrow> int \<times> int"

definition open_msr :: "open_env \<Rightarrow> rapl \<Rightarrow> nat \<Rightarrow> int \<Rightarrow> failure + rapl" where
  "open_msr sys_open r socket cpuCore =
     (case sys_open cpuCore of (d, errno) \<Rightarrow>
        if length (fd r) \<le> socket then Inl Undefined
        else if d < 0 then
          (if errno = ENXIO then Inl (Exit 2)
           else if errno = EIO then Inl (Exit 3)
           else Inl (Exit 127))
        else Inr (r\<lparr>fd := (fd r)[socket := d]\<rparr>))"

text \<open>
  The outcome of \<^verbatim>\<open>pread(fd[socket], &data, sizeof(data), msr_offset)\<close> on a socket's
  handle is an input too: for each offset, the number of bytes read (\<open>-1\<close> on error) and
  the eight bytes as a 64-bit value.
\<close>

type_synonym msr_dev = "32 word \<Rightarrow> int \<times> 64 word"

definition read_msr :: "msr_dev \<Rightarrow> 32 word \<Rightarrow> failure + 64 word" where
  "read_msr dev msr_offset =
     (case dev msr_offset of (nread, data) \<Rightarrow>
        if nread \<noteq> 8 then Inl (Exit 127) else Inr data)"

section \<open>Sampling (Rapl::sample, Rapl::reset)\<close>

text \<open>Lines 253 to 269 of \<^verbatim>\<open>sample(int socket)\<close>: the counters read into the next slot.\<close>

definition read_counters :: "rapl \<Rightarrow> msr_dev \<Rightarrow> rapl_state_t \<Rightarrow> failure + rapl_state_t" where
  "read_counters r dev nx =
     (let max_int = (ucast (NOT (0 :: 32 word)) :: 64 word) in
      if vendor r = 0 then
        (case read_msr dev MSR_PKG_ENERGY_STATUS of Inl e \<Rightarrow> Inl e | Inr v_pkg \<Rightarrow>
         case read_msr dev MSR_PP0_ENERGY_STATUS of Inl e \<Rightarrow> Inl e | Inr v_pp0 \<Rightarrow>
         if pp1_supported r then
           (case read_msr dev MSR_PP1_ENERGY_STATUS of Inl e \<Rightarrow> Inl e | Inr v_pp1 \<Rightarrow>
              Inr (nx\<lparr>pkg := v_pkg AND max_int, pp0 := v_pp0 AND max_int,
                      pp1 := v_pp1 AND max_int, dram := 0\<rparr>))
         else
           (case read_msr dev MSR_DRAM_ENERGY_STATUS of Inl e \<Rightarrow> Inl e | Inr v_dram \<Rightarrow>
              Inr (nx\<lparr>pkg := v_pkg AND max_int, pp0 := v_pp0 AND max_int,
                      pp1 := 0, dram := v_dram AND max_int\<rparr>)))
      else if vendor r = 1 then
        (case read_msr dev AMD_MSR_PACKAGE_ENERGY of Inl e \<Rightarrow> Inl e | Inr v \<Rightarrow>
           Inr (nx\<lparr>pkg := v AND max_int, pp0 := 0, pp1 := 0, dram := 0\<rparr>))
      else Inr nx)"

text \<open>Lines 274 to 278: the running total of one socket, updated from two snapshots.\<close>

definition update_running_total :: "rapl_state_t \<Rightarrow> rapl_state_t \<Rightarrow> rapl_state_t \<Rightarrow> rapl_state_t" where
  "update_running_total rt cur nx =
     rt\<lparr>pkg := pkg rt + energy_delta (pkg cur) (pkg nx),
        pp0 := pp0 rt + energy_delta (pp0 cur) (pp0 nx),
        pp1 := pp1 rt + energy_delta (pp0 cur) (pp0 nx),
        dram := dram rt + energy_delta (dram cur) (dram nx)\<rparr>"

text \<open>
  \<^verbatim>\<open>void Rapl::sample(int socket)\<close>. \<open>dev\<close> is what the socket's handle returns during
  this call and \<open>now\<close> what \<^verbatim>\<open>gettimeofday\<close> returns. The socket is an index into the
  arrays; outside them the behaviour is undefined.
\<close>

definition sample :: "rapl \<Rightarrow> nat \<Rightarrow> msr_dev \<Rightarrow> timeval \<Rightarrow> failure + rapl" where
  "sample r socket dev now =
     (if length (prev_state r) \<le> socket \<or> length (current_state r) \<le> socket \<or>
         length (next_state r) \<le> socket \<or> length (running_total r) \<le> socket
      then Inl Undefined
      else
        case read_counters r dev (next_state r ! socket) of
          Inl e \<Rightarrow> Inl e
        | Inr nx0 \<Rightarrow>
            let nx = nx0\<lparr>tsc := now\<rparr>;
                cur = current_state r ! socket;
                rt = update_running_total (running_total r ! socket) cur nx;
                pprev_state = prev_state r ! socket
            in Inr (r\<lparr>running_total := (running_total r)[socket := rt],
                      prev_state := (prev_state r)[socket := cur],
                      current_state := (current_state r)[socket := nx],
                      next_state := (next_state r)[socket := pprev_state]\<rparr>))"

text \<open>
  A sequence of \<^verbatim>\<open>sample(socket)\<close> calls on one socket, each with the device contents
  and the time of its call; the first failing call ends the process.
\<close>

fun sample_seq :: "rapl \<Rightarrow> nat \<Rightarrow> (msr_dev \<times> timeval) list \<Rightarrow> failure + rapl" where
  "sample_seq r socket [] = Inr r"
| "sample_seq r socket (io # ios) =
     (case sample r socket (fst io) (snd io) of
        Inl e \<Rightarrow> Inl e
      | Inr r' \<Rightarrow> sample_seq r' socket ios)"

text \<open>
  What one iteration of the loop of \<^verbatim>\<open>reset\<close> takes from outside: the contents of the
  four objects \<^verbatim>\<open>new rapl_state_t\<close> returns (the source does not initialise them), the
  device contents and the time at each of the two samples, and the time at which the
  running total starts.
\<close>

record reset_io =
  new_prev :: rapl_state_t
  new_current :: rapl_state_t
  new_next :: rapl_state_t
  new_total :: rapl_state_t
  dev_first :: msr_dev
  time_first :: timeval
  dev_second :: msr_dev
  time_second :: timeval
  time_start :: timeval

definition reset_socket :: "rapl \<Rightarrow> nat \<Rightarrow> reset_io \<Rightarrow> failure + rapl" where
  "reset_socket r i io =
     (if length (prev_state r) \<le> i \<or> length (current_state r) \<le> i \<or>
         length (next_state r) \<le> i \<or> length (running_total r) \<le> i
      then Inl Undefined
      else
        let r0 = r\<lparr>prev_state := (prev_state r)[i := new_prev io],
                   current_state := (current_state r)[i := new_current io],
                   next_state := (next_state r)[i := new_next io],
                   running_total := (running_total r)[i := new_total io]\<rparr>
        in case sample r0 i (dev_first io) (time_first io) of
             Inl e \<Rightarrow> Inl e
           | Inr r1 \<Rightarrow>
               (case sample r1 i (dev_second io) (time_second io) of
                  Inl e \<Rightarrow> Inl e
                | Inr r2 \<Rightarrow>
                    Inr (r2\<lparr>running_total :=
                      (running_total r2)[i := (running_total r2 ! i)
                         \<lparr>pkg := 0, pp0 := 0, dram := 0, tsc := time_start io\<rparr>]\<rparr>)))"

fun reset_loop :: "(nat \<Rightarrow> reset_io) \<Rightarrow> nat list \<Rightarrow> rapl \<Rightarrow> failure + rapl" where
  "reset_loop env [] r = Inr r"
| "reset_loop env (i # js) r =
     (case reset_socket r i (env i) of
        Inl e \<Rightarrow> Inl e
      | Inr r' \<Rightarrow> reset_loop env js r')"

definition reset :: "rapl \<Rightarrow> (nat \<Rightarrow> reset_io) \<Rightarrow> failure + rapl" where
  "reset r env = reset_loop env [0 ..< nat (n_sockets r)] r"

section \<open>Power and energy queries\<close>

definition time_delta :: "timeval \<Rightarrow> timeval \<Rightarrow> real" where
  "time_delta t_begin t_end =
     real_of_int (tv_sec t_end - tv_sec t_begin) +
     real_of_int (tv_usec t_end - tv_usec t_begin) / 1000000"

text \<open>
  \<^verbatim>\<open>double Rapl::power(uint64_t before, uint64_t after, double time_delta)\<close>. Both
  comparisons of the guard, with \<^verbatim>\<open>0.0f\<close> and with \<^verbatim>\<open>-0.0f\<close>, hold exactly when the
  elapsed time is zero. Division in HOL is total (\<open>x / 0 = 0\<close>), so the quotient is
  modelled with its divisor checked: \<open>None\<close> is a division by zero.
\<close>

definition divide_checked :: "real \<Rightarrow> real \<Rightarrow> real option" where
  "divide_checked x y = (if y = 0 then None else Some (x / y))"

definition power :: "rapl \<Rightarrow> 64 word \<Rightarrow> 64 word \<Rightarrow> real \<Rightarrow> real option" where
  "power r before after t =
     (if t = 0 \<or> t = - 0 then Some 0
      else
        let energy = energy_units r * real (unat (energy_delta before after))
        in divide_checked energy t)"

text \<open>
  The loop shared by the four \<^verbatim>\<open>*_current_power\<close> functions, for the domain read by
  \<open>field\<close>: \<open>p\<close> accumulates \<^verbatim>\<open>power(prev_state[i]->dom, current_state[i]->dom, t)\<close> over
  the sockets \<open>i\<close> of the list. \<open>None\<close> is a division by zero on the way.
\<close>

fun current_power_loop ::
  "rapl \<Rightarrow> (rapl_state_t \<Rightarrow> 64 word) \<Rightarrow> nat list \<Rightarrow> real \<Rightarrow> real option" where
  "current_power_loop r field [] p = Some p"
| "current_power_loop r field (i # js) p =
     (let t = time_delta (tsc (prev_state r ! i)) (tsc (current_state r ! i))
      in case power r (field (prev_state r ! i)) (field (current_state r ! i)) t of
           None \<Rightarrow> None
         | Some pp \<Rightarrow> current_power_loop r field js (p + pp))"

text \<open>
  The value a query hands to its caller: \<open>Inr\<close> the \<^verbatim>\<open>double\<close> returned, \<open>Inl Undefined\<close>
  when the function divides by zero or ends without a \<^verbatim>\<open>return\<close> statement.
\<close>

definition pkg_current_power :: "rapl \<Rightarrow> failure + real" where
  "pkg_current_power r =
     (case current_power_loop r pkg [0 ..< nat (n_sockets r)] 0 of
        None \<Rightarrow> Inl Undefined
      | Some p \<Rightarrow> Inr p)"

definition pp0_current_power :: "rapl \<Rightarrow> failure + real" where
  "pp0_current_power r =
     (case current_power_loop r pp0 [0 ..< nat (n_sockets r)] 0 of
        None \<Rightarrow> Inl Undefined
      | Some p \<Rightarrow> Inr p)"

text \<open>
  \<^verbatim>\<open>pp1_current_power\<close> (lines 329 to 335) runs the same loop and then reaches the
  closing brace: the source has no \<^verbatim>\<open>return p;\<close> here.
\<close>

definition pp1_current_power :: "rapl \<Rightarrow> failure + real" where
  "pp1_current_power r =
     (case current_power_loop r pp1 [0 ..< nat (n_sockets r)] 0 of
        None \<Rightarrow> Inl Undefined
      | Some p \<Rightarrow> Inl Undefined)"

definition dram_current_power :: "rapl \<Rightarrow> failure + real" where
  "dram_current_power r =
     (case current_power_loop r dram [0 ..< nat (n_sockets r)] 0 of
        None \<Rightarrow> Inl Undefined
      | Some p \<Rightarrow> Inr p)"

text \<open>
  The loop shared by the four \<^verbatim>\<open>*_total_energy\<close> functions:
  \<^verbatim>\<open>p += energy_units * ((double) running_total[i]->dom)\<close>.
\<close>

fun total_energy_loop ::
  "rapl \<Rightarrow> (rapl_state_t \<Rightarrow> 64 word) \<Rightarrow> nat list \<Rightarrow> real \<Rightarrow> real" where
  "total_energy_loop r field [] p = p"
| "total_energy_loop r field (i # js) p =
     total_energy_loop r field js (p + energy_units r * real (unat (field (running_total r ! i))))"

definition pkg_total_energy :: "rapl \<Rightarrow> real" where
  "pkg_total_energy r = total_energy_loop r pkg [0 ..< nat (n_sockets r)] 0"

definition pp0_total_energy :: "rapl \<Rightarrow> real" where
  "pp0_total_energy r = total_energy_loop r pp0 [0 ..< nat (n_sockets r)] 0"

definition pp1_total_energy :: "rapl \<Rightarrow> real" where
  "pp1_total_energy r = total_energy_loop r pp1 [0 ..< nat (n_sockets r)] 0"

definition dram_total_energy :: "rapl \<Rightarrow> real" where
  "dram_total_energy r = total_energy_loop r dram [0 ..< nat (n_sockets r)] 0"

section \<open>Vendor detection (Rapl::get_vendor)\<close>

text \<open>
  The \<^verbatim>\<open>cpuid\<close> instruction with \<^verbatim>\<open>eax = 0\<close> leaves the vendor identification in
  \<^verbatim>\<open>ebx\<close>, \<^verbatim>\<open>edx\<close>, \<^verbatim>\<open>ecx\<close>; these three registers are the input. The union lays
  them over \<^verbatim>\<open>char vendor[13]\<close>, least significant byte first (the instruction exists
  on x86 only).
\<close>

definition register_chars :: "32 word \<Rightarrow> string" where
  "register_chars w =
     [char_of (unat (w AND 0xFF)),
      char_of (unat (drop_bit 8 w AND 0xFF)),
      char_of (unat (drop_bit 16 w AND 0xFF)),
      char_of (unat (drop_bit 24 w AND 0xFF))]"

definition vendor_string :: "32 word \<Rightarrow> 32 word \<Rightarrow> 32 word \<Rightarrow> string" where
  "vendor_string ebx edx ecx = register_chars ebx @ register_chars edx @ register_chars ecx"

text \<open>A C string ends before its first NUL; \<^verbatim>\<open>strcmp\<close> is 0 when two C strings are equal.\<close>

definition c_string :: "string \<Rightarrow> string" where
  "c_string cs = takeWhile (\<lambda>c. c \<noteq> CHR 0x00) cs"

definition strcmp_is_0 :: "string \<Rightarrow> string \<Rightarrow> bool" where
  "strcmp_is_0 a b = (c_string a = c_string b)"

definition get_vendor :: "32 word \<Rightarrow> 32 word \<Rightarrow> 32 word \<Rightarrow> int" where
  "get_vendor ebx edx ecx =
     (let u_vendor = vendor_string ebx edx ecx @ [CHR 0x00]
      in if strcmp_is_0 u_vendor ''AuthenticAMD'' then 1 else 0)"

text \<open>The register that holds four given characters, least significant byte first.\<close>

definition pack4 :: "char \<Rightarrow> char \<Rightarrow> char \<Rightarrow> char \<Rightarrow> 32 word" where
  "pack4 c0 c1 c2 c3 =
     of_nat (of_char c0 + 256 * of_char c1 + 65536 * of_char c2 + 16777216 * of_char c3)"

section \<open>Socket discovery (Rapl::get_n_sockets)\<close>

text \<open>
  The array sizes \<^verbatim>\<open>MAX_LINE\<close>, \<^verbatim>\<open>MAX_CPU\<close> and \<^verbatim>\<open>MAX_SOCKETS\<close> are macros of
  \<^verbatim>\<open>Rapl.h\<close>, which is not among the sources: they are parameters here.
\<close>

record rapl_h =
  MAX_LINE :: nat
  MAX_CPU :: nat
  MAX_SOCKETS :: nat

text \<open>
  A topology source of \<^verbatim>\<open>/sys\<close>: absent (\<^verbatim>\<open>fopen\<close> returns \<^verbatim>\<open>NULL\<close>), present but
  failing when read, or present with its text.
\<close>

datatype source = Missing | Unreadable | Text string

record topology_env =
  online :: source
  physical_package_id :: "int \<Rightarrow> source"

definition fopen :: "source \<Rightarrow> source option" where
  "fopen f = (case f of Missing \<Rightarrow> None | _ \<Rightarrow> Some f)"

text \<open>
  \<^verbatim>\<open>fgets(line, MAX_LINE, fp)\<close> on a stream just opened: at most \<^verbatim>\<open>MAX_LINE - 1\<close>
  characters, up to and including the first newline; \<^verbatim>\<open>NULL\<close> on a read error or when
  there is nothing to read. With a size of 1 there is room for the terminating NUL only:
  nothing is read and the empty string is returned; with a size of 0 the result is
  \<^verbatim>\<open>NULL\<close>.
\<close>

fun first_line :: "string \<Rightarrow> string" where
  "first_line [] = []"
| "first_line (c # cs) = (if c = CHR 0x0A then [c] else c # first_line cs)"

definition fgets :: "nat \<Rightarrow> source \<Rightarrow> string option" where
  "fgets size_line fp =
     (if size_line = 0 then None
      else if size_line = 1 then Some []
      else
        case fp of
          Text cs \<Rightarrow> if cs = [] then None else Some (take (size_line - 1) (first_line cs))
        | _ \<Rightarrow> None)"

definition isspace :: "char \<Rightarrow> bool" where
  "isspace c = (let n = (of_char c :: nat) in n = 32 \<or> (9 \<le> n \<and> n \<le> 13))"

definition isdigit :: "char \<Rightarrow> bool" where
  "isdigit c = (let n = (of_char c :: nat) in 48 \<le> n \<and> n \<le> 57)"

definition decimal :: "string \<Rightarrow> int" where
  "decimal ds = foldl (\<lambda>a c. 10 * a + (int (of_char c) - 48)) 0 ds"

text \<open>The limits of a C \<^verbatim>\<open>int\<close>, which is 32 bits wide on the platforms of RAPL.\<close>

definition INT_MAX :: int where
  "INT_MAX = 2147483647"

definition INT_MIN :: int where
  "INT_MIN = - 2147483648"

text \<open>
  The conversion \<^verbatim>\<open>%d\<close> of the \<^verbatim>\<open>scanf\<close> family, which is also what \<^verbatim>\<open>atoi\<close> reads:
  white space, an optional sign, decimal digits. The outcome is \<open>No_Conversion\<close> when
  no digit is there, \<open>Out_Of_Range\<close> when the number written does not fit an \<^verbatim>\<open>int\<close>
  (the C standard leaves the behaviour undefined then), and otherwise the value with the
  rest of the input.
\<close>

datatype conversion = No_Conversion | Out_Of_Range | Converted int string

definition scan_int :: "string \<Rightarrow> conversion" where
  "scan_int cs =
     (let s1 = dropWhile isspace cs;
          neg = (s1 \<noteq> [] \<and> hd s1 = CHR ''-'');
          s2 = (if s1 \<noteq> [] \<and> (hd s1 = CHR ''-'' \<or> hd s1 = CHR ''+'') then tl s1 else s1);
          ds = takeWhile isdigit s2;
          v = (if neg then - decimal ds else decimal ds)
      in if ds = [] then No_Conversion
         else if v < INT_MIN \<or> INT_MAX < v then Out_Of_Range
         else Converted v (dropWhile isdigit s2))"

text \<open>\<^verbatim>\<open>atoi\<close>: 0 when there is no number, \<open>None\<close> when the behaviour is undefined.\<close>

definition atoi :: "string \<Rightarrow> int option" where
  "atoi cs =
     (case scan_int cs of
        No_Conversion \<Rightarrow> Some 0
      | Out_Of_Range \<Rightarrow> None
      | Converted v rest \<Rightarrow> Some v)"

text \<open>
  \<^verbatim>\<open>sscanf(token, "%d-%d", &start, &end)\<close>, whose return value the source ignores:
  \<open>Some (start, end)\<close> when both conversions succeed, \<open>None\<close> when one of the two
  locals is left uninitialised or a number does not fit an \<^verbatim>\<open>int\<close>.
\<close>

definition sscanf_range :: "string \<Rightarrow> (int \<times> int) option" where
  "sscanf_range token =
     (case scan_int token of
        Converted range_start rest \<Rightarrow>
          if rest \<noteq> [] \<and> hd rest = CHR ''-'' then
            (case scan_int (tl rest) of
               Converted range_end rest' \<Rightarrow> Some (range_start, range_end)
             | _ \<Rightarrow> None)
          else None
      | _ \<Rightarrow> None)"

text \<open>
  \<^verbatim>\<open>fscanf(fp, "%d", &id)\<close> on a stream just opened: the call returns 1 exactly when
  the outcome is \<open>Converted\<close>.
\<close>

definition fscanf_d :: "source \<Rightarrow> conversion" where
  "fscanf_d fp = (case fp of Text cs \<Rightarrow> scan_int cs | _ \<Rightarrow> No_Conversion)"

text \<open>
  The tokens \<^verbatim>\<open>strtok(line, ",")\<close> and then \<^verbatim>\<open>strtok(NULL, ",")\<close> return until
  \<^verbatim>\<open>NULL\<close>: the non-empty runs between commas. The first argument collects the
  characters of the current token, last first.
\<close>

fun strtok_all :: "string \<Rightarrow> string \<Rightarrow> string list" where
  "strtok_all acc [] = (if acc = [] then [] else [rev acc])"
| "strtok_all acc (c # cs) =
     (if c = CHR '','' then
        (if acc = [] then strtok_all [] cs else rev acc # strtok_all [] cs)
      else strtok_all (c # acc) cs)"

text \<open>
  The parsing loop (lines 431 to 446): the array \<^verbatim>\<open>cpu\<close> as the list of its first
  \<^verbatim>\<open>n\<close> entries. Undefined behaviour: a range whose bounds \<^verbatim>\<open>sscanf\<close> did not both
  set, a number that does not fit an \<^verbatim>\<open>int\<close>, a write past \<^verbatim>\<open>cpu[MAX_CPU - 1]\<close>, and
  the increment of \<^verbatim>\<open>i\<close> past \<^verbatim>\<open>INT_MAX\<close> at the end of a range that ends there.
\<close>

fun parse_tokens :: "nat \<Rightarrow> string list \<Rightarrow> int list \<Rightarrow> failure + int list" where
  "parse_tokens max_cpu [] cpu = Inr cpu"
| "parse_tokens max_cpu (token # tokens) cpu =
     (if CHR ''-'' \<in> set token then
        (case sscanf_range token of
           None \<Rightarrow> Inl Undefined
         | Some (range_start, range_end) \<Rightarrow>
             if max_cpu < length cpu + length [range_start .. range_end] then Inl Undefined
             else if range_start \<le> range_end \<and> range_end = INT_MAX then Inl Undefined
             else parse_tokens max_cpu tokens (cpu @ [range_start .. range_end]))
      else
        (case atoi token of
           None \<Rightarrow> Inl Undefined
         | Some v \<Rightarrow>
             if max_cpu < length cpu + 1 then Inl Undefined
             else parse_tokens max_cpu tokens (cpu @ [v])))"

text \<open>
  The number of characters \<^verbatim>\<open>%d\<close> prints for an \<^verbatim>\<open>int\<close>, and the length of the file
  name \<^verbatim>\<open>sprintf\<close> writes for a CPU: 27 characters before the number and 29 after it.
\<close>

definition printed_length :: "int \<Rightarrow> nat" where
  "printed_length v =
     (if v < 0 then 1 else 0) +
     (let m = \<bar>v\<bar> in
      if m < 10 then 1 else if m < 100 then 2 else if m < 1000 then 3
      else if m < 10000 then 4 else if m < 100000 then 5 else if m < 1000000 then 6
      else if m < 10000000 then 7 else if m < 100000000 then 8
      else if m < 1000000000 then 9 else 10)"

definition filename_length :: "int \<Rightarrow> nat" where
  "filename_length c =
     length ''/sys/devices/system/cpu/cpu'' + printed_length c +
     length ''/topology/physical_package_id''"

text \<open>
  The discovery loop (lines 455 to 479) from index \<open>i\<close> on, over the entries
  \<^verbatim>\<open>cpu[i]\<close>, \<^verbatim>\<open>cpu[i+1]\<close>, ... still to visit; the arrays \<^verbatim>\<open>sockets\<close> and
  \<^verbatim>\<open>first_lcoreid\<close> are lists of \<^verbatim>\<open>MAX_SOCKETS\<close> entries; \<open>pid\<close> is the
  local \<^verbatim>\<open>id\<close> of the source. Undefined behaviour: a file name that, with its NUL,
  does not fit \<^verbatim>\<open>char filename[MAX_LINE]\<close>, a package id that does not fit an
  \<^verbatim>\<open>int\<close>, and a package id outside the two arrays.
\<close>

fun discover ::
  "nat \<Rightarrow> (int \<Rightarrow> source) \<Rightarrow> int list \<Rightarrow> int \<Rightarrow> int list \<Rightarrow> int list
     \<Rightarrow> failure + int list \<times> int list" where
  "discover max_line package_file [] i sockets first_lcoreid = Inr (sockets, first_lcoreid)"
| "discover max_line package_file (c # cs) i sockets first_lcoreid =
     (if max_line \<le> filename_length c then Inl Undefined
      else
        case fopen (package_file c) of
          None \<Rightarrow> Inl (Exit EXIT_FAILURE)
        | Some fp \<Rightarrow>
            (case fscanf_d fp of
               No_Conversion \<Rightarrow> Inl (Exit EXIT_FAILURE)
             | Out_Of_Range \<Rightarrow> Inl Undefined
             | Converted pid rest \<Rightarrow>
                 if pid < 0 \<or> int (length sockets) \<le> pid \<or> int (length first_lcoreid) \<le> pid
                 then Inl Undefined
                 else if sockets ! nat pid = - 1
                 then discover max_line package_file cs (i + 1)
                        (sockets[nat pid := 1]) (first_lcoreid[nat pid := i])
                 else discover max_line package_file cs (i + 1) sockets first_lcoreid))"

text \<open>
  What \<^verbatim>\<open>get_n_sockets\<close> leaves behind: the count it returns and the two member arrays
  it fills.
\<close>

record topology =
  count :: int
  sockets :: "int list"
  first_lcoreid :: "int list"

definition get_n_sockets :: "rapl_h \<Rightarrow> topology_env \<Rightarrow> failure + topology" where
  "get_n_sockets h env =
     (case fopen (online env) of
        None \<Rightarrow> Inl (Exit EXIT_FAILURE)
      | Some fp \<Rightarrow>
          (case fgets (MAX_LINE h) fp of
             None \<Rightarrow> Inl (Exit EXIT_FAILURE)
           | Some line \<Rightarrow>
               (case parse_tokens (MAX_CPU h) (strtok_all [] line) [] of
                  Inl e \<Rightarrow> Inl e
                | Inr cpu \<Rightarrow>
                    (case discover (MAX_LINE h) (physical_package_id env) cpu 0
                            (replicate (MAX_SOCKETS h) (- 1)) (replicate (MAX_SOCKETS h) (- 1)) of
                       Inl e \<Rightarrow> Inl e
                     | Inr (socks, first) \<Rightarrow>
                         Inr \<lparr>count = int (length (filter (\<lambda>x. x = 1) socks)),
                              sockets = socks, first_lcoreid = first\<rparr>))))"

section \<open>Traces and concrete states\<close>

text \<open>
  The states the engine goes through during a sequence of \<^verbatim>\<open>sample(socket)\<close> calls:
  the state before the first call, then the state after each call that returns. The
  trace ends where a call ends the process.
\<close>

fun sample_trace :: "rapl \<Rightarrow> nat \<Rightarrow> (msr_dev \<times> timeval) list \<Rightarrow> rapl list" where
  "sample_trace r socket [] = [r]"
| "sample_trace r socket (io # ios) =
     r # (case sample r socket (fst io) (snd io) of
            Inl e \<Rightarrow> []
          | Inr r' \<Rightarrow> sample_trace r' socket ios)"

text \<open>The sum of the per-step increases of a list of readings.\<close>

fun step_deltas :: "nat list \<Rightarrow> nat" where
  "step_deltas (a # b # cs) = (b - a) + step_deltas (b # cs)"
| "step_deltas cs = 0"

text \<open>A snapshot whose four counters are 32-bit values, as \<^verbatim>\<open>sample\<close> stores them.\<close>

definition counters32 :: "rapl_state_t \<Rightarrow> bool" where
  "counters32 s =
     (unat (pkg s) < 2 ^ 32 \<and> unat (pp0 s) < 2 ^ 32 \<and>
      unat (pp1 s) < 2 ^ 32 \<and> unat (dram s) < 2 ^ 32)"

text \<open>Concrete inputs: a snapshot, an Intel register device, an engine with one socket.\<close>

definition snapshot :: "64 word \<Rightarrow> 64 word \<Rightarrow> 64 word \<Rightarrow> 64 word \<Rightarrow> int \<Rightarrow> rapl_state_t" where
  "snapshot v_pkg v_pp0 v_pp1 v_dram secs =
     \<lparr>pkg = v_pkg, pp0 = v_pp0, pp1 = v_pp1, dram = v_dram,
      tsc = \<lparr>tv_sec = secs, tv_usec = 0\<rparr>\<rparr>"

definition intel_dev :: "64 word \<Rightarrow> 64 word \<Rightarrow> 64 word \<Rightarrow> 64 word \<Rightarrow> msr_dev" where
  "intel_dev v_pkg v_pp0 v_pp1 v_dram = (\<lambda>msr_offset.
     if msr_offset = MSR_PKG_ENERGY_STATUS then (8, v_pkg)
     else if msr_offset = MSR_PP0_ENERGY_STATUS then (8, v_pp0)
     else if msr_offset = MSR_PP1_ENERGY_STATUS then (8, v_pp1)
     else if msr_offset = MSR_DRAM_ENERGY_STATUS then (8, v_dram)
     else (- 1, 0))"

definition one_socket ::
  "rapl_state_t \<Rightarrow> rapl_state_t \<Rightarrow> rapl_state_t \<Rightarrow> rapl_state_t \<Rightarrow> rapl" where
  "one_socket p c n t =
     \<lparr>vendor = 0, pp1_supported = True, n_sockets = 1, energy_units = 1 / 16384, fd = [3],
      prev_state = [p], current_state = [c], next_state = [n], running_total = [t]\<rparr>"

definition idle_engine :: rapl where
  "idle_engine =
     one_socket (snapshot 0 0 0 0 0) (snapshot 0 0 0 0 0) (snapshot 0 0 0 0 0) (snapshot 0 0 0 0 0)"

text \<open>
  One iteration of \<^verbatim>\<open>reset\<close> in which the four new objects happen to be zero-filled
  and the core-plane counter reads 10 and then 20 at the two priming samples.
\<close>

definition priming_io :: reset_io where
  "priming_io =
     \<lparr>new_prev = snapshot 0 0 0 0 0, new_current = snapshot 0 0 0 0 0,
      new_next = snapshot 0 0 0 0 0, new_total = snapshot 0 0 0 0 0,
      dev_first = intel_dev 100 10 5 0, time_first = \<lparr>tv_sec = 1, tv_usec = 0\<rparr>,
      dev_second = intel_dev 130 20 6 0, time_second = \<lparr>tv_sec = 2, tv_usec = 0\<rparr>,
      time_start = \<lparr>tv_sec = 3, tv_usec = 0\<rparr>\<rparr>"

text \<open>
  Concrete topologies: array sizes for the three macros, the machine of the
  specification's example (CPUs 0 to 3 online, two per package), the same machine with
  CPUs 4 to 7 online instead, and one whose CPU 2 has no topology entry.
\<close>

definition sizes :: rapl_h where
  "sizes = \<lparr>MAX_LINE = 1024, MAX_CPU = 1024, MAX_SOCKETS = 8\<rparr>"

definition machine_0_3 :: topology_env where
  "machine_0_3 =
     \<lparr>online = Text (''0-3'' @ [CHR 0x0A]),
      physical_package_id = (\<lambda>c.
        if c = 0 \<or> c = 1 then Text (''0'' @ [CHR 0x0A])
        else if c = 2 \<or> c = 3 then Text (''1'' @ [CHR 0x0A])
        else Missing)\<rparr>"

definition machine_4_7 :: topology_env where
  "machine_4_7 =
     \<lparr>online = Text (''4-7'' @ [CHR 0x0A]),
      physical_package_id = (\<lambda>c.
        if c = 4 \<or> c = 5 then Text (''0'' @ [CHR 0x0A])
        else if c = 6 \<or> c = 7 then Text (''1'' @ [CHR 0x0A])
        else Missing)\<rparr>"


text \<open>
  Along a trace, for the domain read by \<open>field\<close>: the running totals of a socket, and
  the counter readings in its current snapshot.
\<close>

definition totals :: "(rapl_state_t \<Rightarrow> 64 word) \<Rightarrow> nat \<Rightarrow> rapl list \<Rightarrow> nat list" where
  "totals field socket tr = map (\<lambda>s. unat (field (running_total s ! socket))) tr"

definition readings :: "(rapl_state_t \<Rightarrow> 64 word) \<Rightarrow> nat \<Rightarrow> rapl list \<Rightarrow> nat list" where
  "readings field socket tr = map (\<lambda>s. unat (field (current_state s ! socket))) tr"

text \<open>
  The engine \<^verbatim>\<open>reset\<close> leaves from \<open>idle_engine\<close> and \<open>priming_io\<close>; the same iteration
  with a new running-total object whose graphics-plane field holds \<open>2^64 - 21\<close>, and
  the engine that one leaves; and a sample that follows either.
\<close>

definition primed_engine :: rapl where
  "primed_engine =
     one_socket (snapshot 100 10 5 0 1) (snapshot 130 20 6 0 2) (snapshot 0 0 0 0 0)
       (snapshot 0 0 20 0 3)"

definition stale_io :: reset_io where
  "stale_io = priming_io\<lparr>new_total := snapshot 0 0 18446744073709551595 0 0\<rparr>"

definition stale_engine :: rapl where
  "stale_engine =
     one_socket (snapshot 100 10 5 0 1) (snapshot 130 20 6 0 2) (snapshot 0 0 0 0 0)
       (snapshot 0 0 18446744073709551615 0 3)"

definition third_sample :: "(msr_dev \<times> timeval) list" where
  "third_sample = [(intel_dev 150 25 8 0, \<lparr>tv_sec = 4, tv_usec = 0\<rparr>)]"

definition after_third :: rapl where
  "after_third =
     one_socket (snapshot 130 20 6 0 2) (snapshot 150 25 8 0 4) (snapshot 100 10 5 0 1)
       (snapshot 20 5 25 0 3)"

section \<open>Properties of the energy delta\<close>

lemma max_int_64: "(ucast (- 1 :: 32 word) :: 64 word) = 4294967295"
  by (simp add: unsigned_minus_1_eq_mask mask_eq_exp_minus_1)

lemma unat_ucast_32_64: "unat (ucast (w :: 32 word) :: 64 word) = unat w"
proof -
  have "unat w < 2 ^ 32" using unsigned_less [of w] by simp
  then have "unat w < 2 ^ 64" by simp
  then show ?thesis by (simp add: unsigned_ucast_eq take_bit_nat_eq_self)
qed

lemma unat_32_less: "unat (w :: 32 word) < 4294967296"
  using unsigned_less [of w] by simp

text \<open>
  The value of \<open>energy_delta\<close> on two 64-bit arguments that hold 32-bit values, read as
  natural numbers: neither branch wraps at 64 bits.
\<close>

lemma energy_delta_unat:
  assumes b: "unat before < 2 ^ 32" and a: "unat after < 2 ^ 32"
  shows "unat (energy_delta before after) =
    (if unat before \<le> unat after then unat after - unat before
     else unat after + (2 ^ 32 - 1 - unat before))"
proof (cases "unat before \<le> unat after")
  case True
  then have le: "before \<le> after" by (simp add: word_le_nat_alt)
  then have "energy_delta before after = after - before"
    using leD by (auto simp add: energy_delta_def Let_def)
  with le True show ?thesis by (simp add: unat_sub)
next
  case False
  then have lt: "after < before" by (simp add: word_less_nat_alt)
  have le: "before \<le> (4294967295 :: 64 word)"
    using b by (simp add: word_le_nat_alt)
  have s: "unat ((4294967295 :: 64 word) - before) = 4294967295 - unat before"
    using le by (simp add: unat_sub)
  have "unat after + unat ((4294967295 :: 64 word) - before) < 2 ^ LENGTH(64)"
    using a s by simp
  then have "unat (after + (4294967295 - before)) = unat after + (4294967295 - unat before)"
    using s by (simp add: unat_add_lem [THEN iffD1])
  moreover have "energy_delta before after = after + (4294967295 - before)"
    using lt by (simp add: energy_delta_def Let_def max_int_64)
  ultimately show ?thesis using False by simp
qed

lemma energy_delta_bound:
  assumes "unat before < 2 ^ 32" and "unat after < 2 ^ 32"
  shows "unat (energy_delta before after) < 2 ^ 32"
  using assms energy_delta_unat [OF assms] by (simp split: if_splits)

lemma energy_delta_same: "energy_delta x x = 0"
  by (simp add: energy_delta_def Let_def)

text \<open>
  C1. For every pair of 32-bit unsigned values, \<open>energy_delta\<close> returns
  \<open>after - before\<close> when \<open>after \<ge> before\<close> and \<open>after + (2^32 - 1 - before)\<close> when
  \<open>after < before\<close>, both without wrapping; it returns 0 on equal arguments, and
  \<open>2^32 - 1\<close> on \<open>(0, 2^32 - 1)\<close>.
\<close>

theorem energy_delta_rule:
  "unat (energy_delta (ucast (b :: 32 word)) (ucast (a :: 32 word))) =
     (if b \<le> a then unat a - unat b else unat a + (2 ^ 32 - 1 - unat b))
   \<and> energy_delta (ucast b) (ucast b) = 0
   \<and> energy_delta 0 4294967295 = 4294967295"
proof -
  have "unat b < 2 ^ 32" "unat a < 2 ^ 32"
    using unat_32_less [of b] unat_32_less [of a] by simp_all
  then have "unat (energy_delta (ucast b) (ucast a)) =
     (if b \<le> a then unat a - unat b else unat a + (2 ^ 32 - 1 - unat b))"
    using energy_delta_unat [of "ucast b" "ucast a"]
    by (simp add: word_le_nat_alt unat_ucast_32_64)
  moreover have "energy_delta 0 4294967295 = 4294967295"
    by (simp add: energy_delta_def Let_def)
  ultimately show ?thesis by (simp add: energy_delta_same)
qed

text \<open>
  Against the modular difference: the two agree when the counter did not wrap, and the
  wrapped branch is one short of it. The result is a 32-bit value in both branches.
\<close>

lemma mod_2_32_no_wrap:
  "(y :: nat) \<le> x \<Longrightarrow> x < 4294967296 \<Longrightarrow> (int x - int y) mod 4294967296 = int x - int y"
  by (intro mod_pos_pos_trivial) simp_all

lemma mod_2_32_wrap:
  assumes "(x :: nat) < y" "y < 4294967296"
  shows "(int x - int y) mod 4294967296 = int x - int y + 4294967296"
proof -
  have "(int x - int y + 4294967296) mod 4294967296 = int x - int y + 4294967296"
    using assms by (intro mod_pos_pos_trivial) simp_all
  then show ?thesis by simp
qed

lemma energy_delta_no_wrap_modular:
  assumes "b \<le> a"
  shows "uint (energy_delta (ucast (b :: 32 word)) (ucast (a :: 32 word))) =
     (uint a - uint b) mod 2 ^ 32"
proof -
  have le: "unat b \<le> unat a" using assms by (simp add: word_le_nat_alt)
  have "unat (energy_delta (ucast b) (ucast a)) = unat a - unat b"
    using energy_delta_unat [of "ucast b" "ucast a"] unat_32_less [of a] unat_32_less [of b] le
    by (simp add: unat_ucast_32_64)
  then have "int (unat (energy_delta (ucast b) (ucast a))) = int (unat a) - int (unat b)"
    using le by (simp only: of_nat_diff)
  then show ?thesis
    using mod_2_32_no_wrap [OF le unat_32_less [of a]] by simp
qed

lemma energy_delta_wrap_one_short:
  assumes "a < b"
  shows "uint (energy_delta (ucast (b :: 32 word)) (ucast (a :: 32 word))) =
     (uint a - uint b) mod 2 ^ 32 - 1"
proof -
  have lt: "unat a < unat b" using assms by (simp add: word_less_nat_alt)
  have "unat (energy_delta (ucast b) (ucast a)) = unat a + (4294967295 - unat b)"
    using energy_delta_unat [of "ucast b" "ucast a"] unat_32_less [of a] unat_32_less [of b] lt
    by (simp add: unat_ucast_32_64)
  then have "int (unat (energy_delta (ucast b) (ucast a))) =
       int (unat a) + (4294967295 - int (unat b))"
    using unat_32_less [of b] by simp
  then show ?thesis
    using mod_2_32_wrap [OF lt unat_32_less [of b]] by simp
qed

lemma energy_delta_range:
  "unat (energy_delta (ucast (b :: 32 word)) (ucast (a :: 32 word))) \<le> 2 ^ 32 - 1"
  using energy_delta_bound [of "ucast b" "ucast a"] unat_32_less [of a] unat_32_less [of b]
  by (simp add: unat_ucast_32_64)

text \<open>
  C2. The claim that \<open>energy_delta before after\<close> is \<open>(after - before) mod 2^32\<close>,
  evaluated at \<open>before = 1\<close>, \<open>after = 0\<close>: the code returns \<open>2^32 - 2\<close>, the modular
  difference is \<open>2^32 - 1\<close>.
\<close>

theorem energy_delta_wrap_at_1_0:
  "energy_delta (ucast (1 :: 32 word)) (ucast (0 :: 32 word)) = 4294967294
   \<and> (uint (0 :: 32 word) - uint (1 :: 32 word)) mod 2 ^ 32 = 4294967295"
  by (simp add: energy_delta_def Let_def max_int_64)

section \<open>Vendor detection\<close>

lemma length_vendor_string: "length (vendor_string ebx edx ecx) = 12"
  by (simp add: vendor_string_def register_chars_def)

lemma c_string_terminated: "c_string (cs @ [CHR 0x00]) = c_string cs"
  by (induction cs) (simp_all add: c_string_def)

lemma c_string_prefix: "c_string cs @ dropWhile (\<lambda>c. c \<noteq> CHR 0x00) cs = cs"
  by (simp add: c_string_def)

lemma c_string_full:
  assumes "c_string cs = lit" and "length lit = length cs"
  shows "cs = lit"
proof -
  have "length (c_string cs) + length (dropWhile (\<lambda>c. c \<noteq> CHR 0x00) cs) = length cs"
    using c_string_prefix [of cs] by (metis length_append)
  with assms have "dropWhile (\<lambda>c. c \<noteq> CHR 0x00) cs = []" by simp
  with c_string_prefix [of cs] assms show ?thesis by simp
qed

lemma c_string_AuthenticAMD: "c_string ''AuthenticAMD'' = ''AuthenticAMD''"
  by (simp add: c_string_def)

lemma of_char_less: "(of_char c :: nat) < 256"
  by simp

lemma byte_of_word: "unat (drop_bit n (w :: 32 word) AND 0xFF) = (unat w div 2 ^ n) mod 256"
proof -
  have "(0xFF :: 32 word) = mask 8" by (simp add: mask_eq_exp_minus_1)
  then have "drop_bit n w AND 0xFF = take_bit 8 (drop_bit n w)"
    by (simp only: take_bit_eq_mask)
  then have "unat (drop_bit n w AND 0xFF) = take_bit 8 (drop_bit n (unat w))"
    by (simp only: unsigned_take_bit_eq unat_drop_bit_eq)
  then show ?thesis
    by (simp only: take_bit_eq_mod drop_bit_eq_div) simp
qed

lemma base_256_step:
  fixes x y :: nat
  assumes "x < 256"
  shows "(x + 256 * y) mod 256 = x" and "(x + 256 * y) div 256 = y"
  using assms by simp_all

lemma base_256_digits:
  fixes a b c d :: nat
  assumes "a < 256" "b < 256" "c < 256" "d < 256"
  shows "a + 256 * b + 65536 * c + 16777216 * d < 4294967296"
    and "(a + 256 * b + 65536 * c + 16777216 * d) mod 256 = a"
    and "(a + 256 * b + 65536 * c + 16777216 * d) div 2 ^ 8 mod 256 = b"
    and "(a + 256 * b + 65536 * c + 16777216 * d) div 2 ^ 16 mod 256 = c"
    and "(a + 256 * b + 65536 * c + 16777216 * d) div 2 ^ 24 mod 256 = d"
proof -
  let ?n = "a + 256 * b + 65536 * c + 16777216 * d"
  have n: "?n = a + 256 * (b + 256 * (c + 256 * d))" by simp
  show "?n < 4294967296" using assms by linarith
  show "?n mod 256 = a" using assms(1) by (simp only: n base_256_step)
  have 1: "?n div 256 = b + 256 * (c + 256 * d)"
    using assms(1) by (simp only: n base_256_step)
  have 2: "?n div 256 div 256 = c + 256 * d"
    using assms(2) by (simp only: 1 base_256_step)
  have 3: "?n div 256 div 256 div 256 = d"
    using assms(3) by (simp only: 2 base_256_step)
  have p: "?n div 2 ^ 8 = ?n div 256" "?n div 2 ^ 16 = ?n div 256 div 256"
    "?n div 2 ^ 24 = ?n div 256 div 256 div 256"
    by (simp_all only: div_mult2_eq [symmetric]) simp_all
  show "?n div 2 ^ 8 mod 256 = b" using assms(2) by (simp only: p 1 base_256_step)
  show "?n div 2 ^ 16 mod 256 = c" using assms(3) by (simp only: p 2 base_256_step)
  show "?n div 2 ^ 24 mod 256 = d" using assms(4) by (simp only: p 3) simp
qed

lemma register_chars_pack4: "register_chars (pack4 c0 c1 c2 c3) = [c0, c1, c2, c3]"
proof -
  let ?n = "of_char c0 + 256 * of_char c1 + 65536 * of_char c2 + 16777216 * of_char c3 :: nat"
  note d = base_256_digits [OF of_char_less [of c0] of_char_less [of c1] of_char_less [of c2]
      of_char_less [of c3]]
  have u: "unat (pack4 c0 c1 c2 c3) = ?n"
    using d(1) by (simp only: pack4_def unat_of_nat) simp
  have "unat (pack4 c0 c1 c2 c3 AND 0xFF) = of_char c0"
    using byte_of_word [of 0 "pack4 c0 c1 c2 c3"] d(2) by (simp only: u) simp
  moreover have "unat (drop_bit 8 (pack4 c0 c1 c2 c3) AND 0xFF) = of_char c1"
    using byte_of_word [of 8 "pack4 c0 c1 c2 c3"] d(3) by (simp only: u)
  moreover have "unat (drop_bit 16 (pack4 c0 c1 c2 c3) AND 0xFF) = of_char c2"
    using byte_of_word [of 16 "pack4 c0 c1 c2 c3"] d(4) by (simp only: u)
  moreover have "unat (drop_bit 24 (pack4 c0 c1 c2 c3) AND 0xFF) = of_char c3"
    using byte_of_word [of 24 "pack4 c0 c1 c2 c3"] d(5) by (simp only: u)
  ultimately show ?thesis by (simp add: register_chars_def)
qed

lemma base_256_decompose:
  fixes n :: nat
  assumes "n < 4294967296"
  shows "n mod 256 + 256 * (n div 2 ^ 8 mod 256) + 65536 * (n div 2 ^ 16 mod 256) +
         16777216 * (n div 2 ^ 24 mod 256) = n"
proof -
  let ?a = "n div 256" and ?b = "n div 256 div 256" and ?c = "n div 256 div 256 div 256"
  have p: "n div 2 ^ 8 = ?a" "n div 2 ^ 16 = ?b" "n div 2 ^ 24 = ?c"
    by (simp_all only: div_mult2_eq [symmetric]) simp_all
  have 0: "n = 256 * ?a + n mod 256" by simp
  have 1: "?a = 256 * ?b + ?a mod 256" by simp
  have 2: "?b = 256 * ?c + ?b mod 256" by simp
  have "?c < 256" using assms by (simp add: div_mult2_eq [symmetric])
  then have 3: "?c mod 256 = ?c" by simp
  show ?thesis
    unfolding p 3 using 0 1 2 by linarith
qed

lemma register_chars_bytes:
  "register_chars w =
     [char_of (unat w mod 256), char_of (unat w div 2 ^ 8 mod 256),
      char_of (unat w div 2 ^ 16 mod 256), char_of (unat w div 2 ^ 24 mod 256)]"
  using byte_of_word [of 0 w] byte_of_word [of 8 w] byte_of_word [of 16 w]
    byte_of_word [of 24 w]
  by (simp add: register_chars_def)

lemma pack4_register_chars:
  "pack4 (register_chars w ! 0) (register_chars w ! 1) (register_chars w ! 2)
     (register_chars w ! 3) = w"
proof -
  let ?b0 = "unat w mod 256" and ?b1 = "unat w div 2 ^ 8 mod 256"
    and ?b2 = "unat w div 2 ^ 16 mod 256" and ?b3 = "unat w div 2 ^ 24 mod 256"
  have "unat w < 4294967296" using unsigned_less [of w] by simp
  from base_256_decompose [OF this]
  have d: "?b0 + 256 * ?b1 + 65536 * ?b2 + 16777216 * ?b3 = unat w" .
  have c: "of_char (char_of (x mod 256 :: nat)) = x mod 256" for x :: nat
    by (simp add: of_char_of)
  have "pack4 (register_chars w ! 0) (register_chars w ! 1) (register_chars w ! 2)
      (register_chars w ! 3) = pack4 (char_of ?b0) (char_of ?b1) (char_of ?b2) (char_of ?b3)"
    by (simp only: register_chars_bytes) simp
  also have "\<dots> = of_nat (?b0 + 256 * ?b1 + 65536 * ?b2 + 16777216 * ?b3)"
    by (simp only: pack4_def c)
  also have "\<dots> = w" by (simp only: d) simp
  finally show ?thesis .
qed

lemma register_chars_inject:
  assumes "register_chars w = register_chars w'"
  shows "w = w'"
  using pack4_register_chars [of w] pack4_register_chars [of w'] assms by simp

lemma register_chars_literals:
  "register_chars 0x68747541 = ''Auth''" "register_chars 0x69746E65 = ''enti''"
  "register_chars 0x444D4163 = ''cAMD''"
  by code_simp+

lemma vendor_string_AuthenticAMD_iff:
  "vendor_string ebx edx ecx = ''AuthenticAMD'' \<longleftrightarrow>
     ebx = 0x68747541 \<and> edx = 0x69746E65 \<and> ecx = 0x444D4163"
proof -
  have l: "length (register_chars ebx) = 4" "length (register_chars edx) = 4"
    "length (register_chars ecx) = 4"
    by (simp_all add: register_chars_def)
  have "vendor_string ebx edx ecx = ''AuthenticAMD'' \<longleftrightarrow>
      register_chars ebx @ register_chars edx @ register_chars ecx =
      ''Auth'' @ ''enti'' @ ''cAMD''"
    by (simp add: vendor_string_def)
  also have "\<dots> \<longleftrightarrow> register_chars ebx = ''Auth'' \<and> register_chars edx = ''enti'' \<and>
      register_chars ecx = ''cAMD''"
  proof -
    have "register_chars ebx @ register_chars edx @ register_chars ecx =
        ''Auth'' @ ''enti'' @ ''cAMD'' \<longleftrightarrow>
        register_chars ebx = ''Auth'' \<and> register_chars edx @ register_chars ecx =
        ''enti'' @ ''cAMD''"
      by (rule append_eq_append_conv) (simp add: l)
    moreover have "register_chars edx @ register_chars ecx = ''enti'' @ ''cAMD'' \<longleftrightarrow>
        register_chars edx = ''enti'' \<and> register_chars ecx = ''cAMD''"
      by (rule append_eq_append_conv) (simp add: l)
    ultimately show ?thesis by simp
  qed
  also have "\<dots> \<longleftrightarrow> ebx = 0x68747541 \<and> edx = 0x69746E65 \<and> ecx = 0x444D4163"
    using register_chars_inject [of ebx "0x68747541"] register_chars_inject [of edx "0x69746E65"]
      register_chars_inject [of ecx "0x444D4163"]
    by (auto simp add: register_chars_literals)
  finally show ?thesis .
qed

lemma get_vendor_string:
  "get_vendor ebx edx ecx = (if vendor_string ebx edx ecx = ''AuthenticAMD'' then 1 else 0)"
proof -
  have "c_string (vendor_string ebx edx ecx) = ''AuthenticAMD'' \<longleftrightarrow>
        vendor_string ebx edx ecx = ''AuthenticAMD''"
    using c_string_full [of "vendor_string ebx edx ecx" "''AuthenticAMD''"]
    by (auto simp add: length_vendor_string c_string_AuthenticAMD)
  then show ?thesis
    by (simp add: get_vendor_def strcmp_is_0_def c_string_terminated c_string_AuthenticAMD)
qed

lemma vendor_string_pack4:
  "vendor_string (pack4 c0 c1 c2 c3) (pack4 c4 c5 c6 c7) (pack4 c8 c9 c10 c11) =
     [c0, c1, c2, c3, c4, c5, c6, c7, c8, c9, c10, c11]"
  by (simp add: vendor_string_def register_chars_pack4)

text \<open>
  C8. \<open>get_vendor\<close> returns 1 (AMD) exactly when the three registers hold the twelve
  characters \<open>AuthenticAMD\<close>, and 0 (Intel) on every other register contents; its
  result is a plain value, with no failure among its outcomes. In terms of the string:
  every twelve characters are the contents of some registers (\<open>pack4\<close> builds them),
  and on those \<open>get_vendor\<close> returns 1 exactly when the string is \<open>AuthenticAMD\<close>.
\<close>

theorem get_vendor_exact:
  "get_vendor ebx edx ecx =
     (if ebx = 0x68747541 \<and> edx = 0x69746E65 \<and> ecx = 0x444D4163 then 1 else 0)
   \<and> vendor_string 0x68747541 0x69746E65 0x444D4163 = ''AuthenticAMD''
   \<and> vendor_string (pack4 c0 c1 c2 c3) (pack4 c4 c5 c6 c7) (pack4 c8 c9 c10 c11) =
       [c0, c1, c2, c3, c4, c5, c6, c7, c8, c9, c10, c11]
   \<and> get_vendor (pack4 c0 c1 c2 c3) (pack4 c4 c5 c6 c7) (pack4 c8 c9 c10 c11) =
       (if [c0, c1, c2, c3, c4, c5, c6, c7, c8, c9, c10, c11] = ''AuthenticAMD'' then 1 else 0)"
proof -
  have "vendor_string 0x68747541 0x69746E65 0x444D4163 = ''AuthenticAMD''"
    by (simp add: vendor_string_AuthenticAMD_iff)
  moreover have "get_vendor ebx edx ecx =
     (if ebx = 0x68747541 \<and> edx = 0x69746E65 \<and> ecx = 0x444D4163 then 1 else 0)"
    by (simp only: get_vendor_string vendor_string_AuthenticAMD_iff)
  moreover have "get_vendor (pack4 c0 c1 c2 c3) (pack4 c4 c5 c6 c7) (pack4 c8 c9 c10 c11) =
       (if [c0, c1, c2, c3, c4, c5, c6, c7, c8, c9, c10, c11] = ''AuthenticAMD'' then 1 else 0)"
    by (simp only: get_vendor_string vendor_string_pack4)
  ultimately show ?thesis by (simp only: vendor_string_pack4)
qed

text \<open>
  The registers of an AMD and of an Intel processor, and two values one character away
  from each: \<open>AuthenticAM\<close> cut short by a NUL, and \<open>GenuineIntel\<close> with a blank for
  its last letter.
\<close>

lemma get_vendor_AuthenticAMD:
  "vendor_string 0x68747541 0x69746E65 0x444D4163 = ''AuthenticAMD''
   \<and> get_vendor 0x68747541 0x69746E65 0x444D4163 = 1"
  by code_simp

lemma get_vendor_GenuineIntel:
  "vendor_string 0x756E6547 0x49656E69 0x6C65746E = ''GenuineIntel''
   \<and> get_vendor 0x756E6547 0x49656E69 0x6C65746E = 0"
  by code_simp

lemma get_vendor_truncated:
  "get_vendor 0x68747541 0x69746E65 0x004D4163 = 0
   \<and> get_vendor 0x756E6547 0x49656E69 0x2065746E = 0"
  by code_simp

text \<open>
  Every string of twelve characters is the vendor identification of some register
  contents: the three registers range over every value of that string.
\<close>

lemma vendor_string_onto:
  assumes "length cs = 12"
  shows "\<exists>ebx edx ecx. vendor_string ebx edx ecx = cs"
proof -
  from assms obtain c0 c1 c2 c3 c4 c5 c6 c7 c8 c9 c10 c11
    where cs: "cs = [c0, c1, c2, c3, c4, c5, c6, c7, c8, c9, c10, c11]"
    by (auto simp add: length_Suc_conv numeral_eq_Suc)
  have "vendor_string (pack4 c0 c1 c2 c3) (pack4 c4 c5 c6 c7) (pack4 c8 c9 c10 c11) = cs"
    by (simp add: vendor_string_def register_chars_pack4 cs)
  then show ?thesis by blast
qed

section \<open>Register access\<close>

text \<open>
  C9. Opening a socket's register device ends the process with code 2 when \<^verbatim>\<open>open\<close>
  fails with \<^verbatim>\<open>ENXIO\<close> (no such CPU), with code 3 when it fails with \<^verbatim>\<open>EIO\<close> (no
  register support), with code 127 on every other failure; a read that does not return
  8 bytes ends the process with code 127.
\<close>

theorem register_access_exit_codes:
  "(socket < length (fd r) \<and> fst (sys_open cpuCore) < 0 \<and> snd (sys_open cpuCore) = ENXIO
      \<longrightarrow> open_msr sys_open r socket cpuCore = Inl (Exit 2))
   \<and> (socket < length (fd r) \<and> fst (sys_open cpuCore) < 0 \<and> snd (sys_open cpuCore) = EIO
      \<longrightarrow> open_msr sys_open r socket cpuCore = Inl (Exit 3))
   \<and> (socket < length (fd r) \<and> fst (sys_open cpuCore) < 0 \<and>
       snd (sys_open cpuCore) \<noteq> ENXIO \<and> snd (sys_open cpuCore) \<noteq> EIO
      \<longrightarrow> open_msr sys_open r socket cpuCore = Inl (Exit 127))
   \<and> (fst (dev msr_offset) \<noteq> 8 \<longrightarrow> read_msr dev msr_offset = Inl (Exit 127))"
  by (simp add: open_msr_def read_msr_def EIO_def ENXIO_def split: prod.splits)

theorem register_access_exit_codes_witness:
  "open_msr (\<lambda>c. (- 1, ENXIO)) idle_engine 0 5 = Inl (Exit 2)
   \<and> open_msr (\<lambda>c. (- 1, EIO)) idle_engine 0 5 = Inl (Exit 3)
   \<and> open_msr (\<lambda>c. (- 1, 13)) idle_engine 0 5 = Inl (Exit 127)
   \<and> read_msr (\<lambda>off. (4, 0)) MSR_PKG_ENERGY_STATUS = Inl (Exit 127)
   \<and> read_msr (\<lambda>off. (- 1, 0)) MSR_PKG_ENERGY_STATUS = Inl (Exit 127)"
  using register_access_exit_codes [of 0 idle_engine "\<lambda>c. (- 1, ENXIO)" 5
      "\<lambda>off. (4, 0)" MSR_PKG_ENERGY_STATUS]
    register_access_exit_codes [of 0 idle_engine "\<lambda>c. (- 1, EIO)" 5
      "\<lambda>off. (- 1, 0)" MSR_PKG_ENERGY_STATUS]
    register_access_exit_codes [of 0 idle_engine "\<lambda>c. (- 1, 13)" 5
      "\<lambda>off. (- 1, 0)" MSR_PKG_ENERGY_STATUS]
  by (simp add: idle_engine_def one_socket_def EIO_def ENXIO_def)

section \<open>Sampling\<close>

lemmas msr_numbers = MSR_PKG_ENERGY_STATUS_def MSR_PP0_ENERGY_STATUS_def
  MSR_PP1_ENERGY_STATUS_def MSR_DRAM_ENERGY_STATUS_def AMD_MSR_PACKAGE_ENERGY_def

lemma sample_Inr:
  assumes "sample r socket dev now = Inr r'"
  obtains nx0 where "read_counters r dev (next_state r ! socket) = Inr nx0"
    and "r' = r\<lparr>running_total := (running_total r)[socket :=
             update_running_total (running_total r ! socket) (current_state r ! socket) (nx0\<lparr>tsc := now\<rparr>)],
           prev_state := (prev_state r)[socket := current_state r ! socket],
           current_state := (current_state r)[socket := nx0\<lparr>tsc := now\<rparr>],
           next_state := (next_state r)[socket := prev_state r ! socket]\<rparr>"
    and "socket < length (prev_state r)" "socket < length (current_state r)"
        "socket < length (next_state r)" "socket < length (running_total r)"
  using assms by (auto simp add: sample_def Let_def split: if_splits sum.splits)

text \<open>
  C4. A \<^verbatim>\<open>sample(socket)\<close> call that returns has read the next snapshot, which the
  rotation makes the current one, and has added to the running totals of the package, of
  the core plane and of DRAM the delta of their own counter between the old and the new
  current snapshot, and to the running total of the graphics plane (pp1) the delta of the
  core-plane counter (pp0).
\<close>

theorem sample_running_total:
  assumes "sample r socket dev now = Inr r'"
  shows "(\<exists>nx0. read_counters r dev (next_state r ! socket) = Inr nx0 \<and>
            current_state r' ! socket = nx0\<lparr>tsc := now\<rparr>)
    \<and> pkg (running_total r' ! socket) = pkg (running_total r ! socket) +
          energy_delta (pkg (current_state r ! socket)) (pkg (current_state r' ! socket))
    \<and> pp0 (running_total r' ! socket) = pp0 (running_total r ! socket) +
          energy_delta (pp0 (current_state r ! socket)) (pp0 (current_state r' ! socket))
    \<and> pp1 (running_total r' ! socket) = pp1 (running_total r ! socket) +
          energy_delta (pp0 (current_state r ! socket)) (pp0 (current_state r' ! socket))
    \<and> dram (running_total r' ! socket) = dram (running_total r ! socket) +
          energy_delta (dram (current_state r ! socket)) (dram (current_state r' ! socket))"
proof -
  from assms obtain nx0 where rd: "read_counters r dev (next_state r ! socket) = Inr nx0"
    and r': "r' = r\<lparr>running_total := (running_total r)[socket :=
             update_running_total (running_total r ! socket) (current_state r ! socket) (nx0\<lparr>tsc := now\<rparr>)],
           prev_state := (prev_state r)[socket := current_state r ! socket],
           current_state := (current_state r)[socket := nx0\<lparr>tsc := now\<rparr>],
           next_state := (next_state r)[socket := prev_state r ! socket]\<rparr>"
    and len: "socket < length (current_state r)" "socket < length (running_total r)"
    by (rule sample_Inr)
  from r' len have cur: "current_state r' ! socket = nx0\<lparr>tsc := now\<rparr>" by simp
  from r' len have rt: "running_total r' ! socket =
      update_running_total (running_total r ! socket) (current_state r ! socket) (nx0\<lparr>tsc := now\<rparr>)"
    by simp
  show ?thesis
    using rd by (simp add: cur rt update_running_total_def)
qed

theorem sample_running_total_witness:
  "sample (one_socket (snapshot 0 0 0 0 0) (snapshot 40 10 100 0 1) (snapshot 0 0 0 0 0)
            (snapshot 0 0 0 0 0)) 0 (intel_dev 50 15 102 7) \<lparr>tv_sec = 2, tv_usec = 0\<rparr>
     = Inr (one_socket (snapshot 40 10 100 0 1) (snapshot 50 15 102 0 2) (snapshot 0 0 0 0 0)
            (snapshot 10 5 5 0 0))
   \<and> pp1 (snapshot 10 5 5 0 0) = pp1 (snapshot 0 0 0 0 0) + energy_delta 10 15
   \<and> energy_delta 10 15 = 5 \<and> energy_delta 100 102 = 2"
proof -
  have s: "sample (one_socket (snapshot 0 0 0 0 0) (snapshot 40 10 100 0 1) (snapshot 0 0 0 0 0)
            (snapshot 0 0 0 0 0)) 0 (intel_dev 50 15 102 7) \<lparr>tv_sec = 2, tv_usec = 0\<rparr>
     = Inr (one_socket (snapshot 40 10 100 0 1) (snapshot 50 15 102 0 2) (snapshot 0 0 0 0 0)
            (snapshot 10 5 5 0 0))"
    by (simp add: sample_def read_counters_def read_msr_def intel_dev_def one_socket_def
        snapshot_def msr_numbers update_running_total_def energy_delta_def Let_def max_int_64)
  have d: "energy_delta 10 15 = 5 \<and> energy_delta 100 102 = 2"
    by (simp add: energy_delta_def Let_def)
  show ?thesis
    using sample_running_total [OF s] s d by (simp add: one_socket_def snapshot_def)
qed

section \<open>Reset\<close>

lemma sample_pp1_step:
  assumes "sample r socket dev now = Inr r'"
  shows "pp1 (running_total r' ! socket) = pp1 (running_total r ! socket) +
          energy_delta (pp0 (current_state r ! socket)) (pp0 (current_state r' ! socket))"
  using assms by (auto elim!: sample_Inr simp add: update_running_total_def)

lemma sample_lengths:
  assumes "sample r socket dev now = Inr r'"
  shows "length (running_total r') = length (running_total r)"
    and "length (prev_state r') = length (prev_state r)"
    and "length (current_state r') = length (current_state r)"
    and "length (next_state r') = length (next_state r)"
    and "n_sockets r' = n_sockets r" and "vendor r' = vendor r"
    and "pp1_supported r' = pp1_supported r" and "energy_units r' = energy_units r"
  using assms by (auto elim!: sample_Inr)

lemma sample_other_socket:
  assumes "sample r socket dev now = Inr r'" and "j \<noteq> socket"
  shows "running_total r' ! j = running_total r ! j"
  using assms by (auto elim!: sample_Inr)

lemma reset_socket_Inr:
  assumes "reset_socket r i io = Inr r'"
  shows "pkg (running_total r' ! i) = 0 \<and> pp0 (running_total r' ! i) = 0 \<and>
         dram (running_total r' ! i) = 0 \<and> tsc (running_total r' ! i) = time_start io"
    and "j \<noteq> i \<Longrightarrow> running_total r' ! j = running_total r ! j"
    and "length (running_total r') = length (running_total r)"
    and "i < length (running_total r)"
proof -
  let ?r0 = "r\<lparr>prev_state := (prev_state r)[i := new_prev io],
                   current_state := (current_state r)[i := new_current io],
                   next_state := (next_state r)[i := new_next io],
                   running_total := (running_total r)[i := new_total io]\<rparr>"
  from assms have len: "i < length (running_total r)"
    by (simp add: reset_socket_def split: if_splits)
  from assms obtain r1 r2 where s1: "sample ?r0 i (dev_first io) (time_first io) = Inr r1"
    and s2: "sample r1 i (dev_second io) (time_second io) = Inr r2"
    and r': "r' = r2\<lparr>running_total := (running_total r2)[i := (running_total r2 ! i)
                         \<lparr>pkg := 0, pp0 := 0, dram := 0, tsc := time_start io\<rparr>]\<rparr>"
    by (auto simp add: reset_socket_def Let_def split: if_splits sum.splits)
  have l2: "length (running_total r2) = length (running_total r)"
    using sample_lengths(1) [OF s1] sample_lengths(1) [OF s2] by simp
  show "pkg (running_total r' ! i) = 0 \<and> pp0 (running_total r' ! i) = 0 \<and>
         dram (running_total r' ! i) = 0 \<and> tsc (running_total r' ! i) = time_start io"
    using r' l2 len by simp
  show "length (running_total r') = length (running_total r)"
    using r' l2 by simp
  show "i < length (running_total r)" by (rule len)
  show "running_total r' ! j = running_total r ! j" if "j \<noteq> i"
    using that r' sample_other_socket [OF s1 that] sample_other_socket [OF s2 that] by simp
qed

lemma reset_loop_other:
  assumes "reset_loop env js r = Inr r'" and "i \<notin> set js"
  shows "running_total r' ! i = running_total r ! i"
  using assms
proof (induction js arbitrary: r)
  case Nil
  then show ?case by simp
next
  case (Cons j js)
  from Cons.prems obtain r1 where 1: "reset_socket r j (env j) = Inr r1"
    and 2: "reset_loop env js r1 = Inr r'"
    by (auto split: sum.splits)
  from Cons.prems have "i \<noteq> j" "i \<notin> set js" by auto
  with Cons.IH [OF 2] reset_socket_Inr(2) [OF 1] show ?case by simp
qed

lemma reset_loop_zero:
  assumes "reset_loop env js r = Inr r'" and "distinct js" and "i \<in> set js"
  shows "pkg (running_total r' ! i) = 0 \<and> pp0 (running_total r' ! i) = 0 \<and>
         dram (running_total r' ! i) = 0 \<and> tsc (running_total r' ! i) = time_start (env i)"
  using assms
proof (induction js arbitrary: r)
  case Nil
  then show ?case by simp
next
  case (Cons j js)
  from Cons.prems obtain r1 where 1: "reset_socket r j (env j) = Inr r1"
    and 2: "reset_loop env js r1 = Inr r'"
    by (auto split: sum.splits)
  show ?case
  proof (cases "i = j")
    case True
    with Cons.prems have "i \<notin> set js" by simp
    from reset_loop_other [OF 2 this] reset_socket_Inr(1) [OF 1] True show ?thesis by simp
  next
    case False
    with Cons.prems have "i \<in> set js" "distinct js" by auto
    with Cons.IH [OF 2] show ?thesis by simp
  qed
qed

lemma reset_zeroes_three_domains:
  assumes "reset r env = Inr r'" and "i < nat (n_sockets r)"
  shows "pkg (running_total r' ! i) = 0 \<and> pp0 (running_total r' ! i) = 0 \<and>
         dram (running_total r' ! i) = 0 \<and> tsc (running_total r' ! i) = time_start (env i)"
  using assms reset_loop_zero [of env "[0 ..< nat (n_sockets r)]" r r' i]
  by (simp add: reset_def)

lemma reset_socket_pp1:
  assumes "reset_socket r i io = Inr r'"
  shows "pp1 (running_total r' ! i) =
     pp1 (new_total io) + energy_delta (pp0 (new_current io)) (pp0 (prev_state r' ! i))
       + energy_delta (pp0 (prev_state r' ! i)) (pp0 (current_state r' ! i))"
proof -
  let ?r0 = "r\<lparr>prev_state := (prev_state r)[i := new_prev io],
                   current_state := (current_state r)[i := new_current io],
                   next_state := (next_state r)[i := new_next io],
                   running_total := (running_total r)[i := new_total io]\<rparr>"
  from assms have len: "i < length (running_total r)" "i < length (current_state r)"
      "i < length (prev_state r)"
    by (simp_all add: reset_socket_def split: if_splits)
  from assms obtain r1 r2 where s1: "sample ?r0 i (dev_first io) (time_first io) = Inr r1"
    and s2: "sample r1 i (dev_second io) (time_second io) = Inr r2"
    and r': "r' = r2\<lparr>running_total := (running_total r2)[i := (running_total r2 ! i)
                         \<lparr>pkg := 0, pp0 := 0, dram := 0, tsc := time_start io\<rparr>]\<rparr>"
    by (auto simp add: reset_socket_def Let_def split: if_splits sum.splits)
  have l1: "length (running_total r1) = length (running_total r)"
      "length (current_state r1) = length (current_state r)"
      "length (prev_state r1) = length (prev_state r)"
    using sample_lengths [OF s1] by simp_all
  have l2: "length (running_total r2) = length (running_total r)"
    using sample_lengths(1) [OF s2] l1 by simp
  have p2: "prev_state r2 ! i = current_state r1 ! i"
    using s2 l1 len by (auto elim!: sample_Inr)
  have t1: "pp1 (running_total r1 ! i) =
      pp1 (new_total io) + energy_delta (pp0 (new_current io)) (pp0 (current_state r1 ! i))"
    using sample_pp1_step [OF s1] len by simp
  have t2: "pp1 (running_total r2 ! i) =
      pp1 (running_total r1 ! i) +
        energy_delta (pp0 (current_state r1 ! i)) (pp0 (current_state r2 ! i))"
    using sample_pp1_step [OF s2] by simp
  show ?thesis
    using r' l2 len t1 t2 p2 by simp
qed

lemma reset_socket_n_sockets:
  assumes "reset_socket r i io = Inr r'"
  shows "n_sockets r' = n_sockets r"
proof -
  let ?r0 = "r\<lparr>prev_state := (prev_state r)[i := new_prev io],
                   current_state := (current_state r)[i := new_current io],
                   next_state := (next_state r)[i := new_next io],
                   running_total := (running_total r)[i := new_total io]\<rparr>"
  from assms obtain r1 r2 where s1: "sample ?r0 i (dev_first io) (time_first io) = Inr r1"
    and s2: "sample r1 i (dev_second io) (time_second io) = Inr r2"
    and r': "r' = r2\<lparr>running_total := (running_total r2)[i := (running_total r2 ! i)
                         \<lparr>pkg := 0, pp0 := 0, dram := 0, tsc := time_start io\<rparr>]\<rparr>"
    by (auto simp add: reset_socket_def Let_def split: if_splits sum.splits)
  from r' sample_lengths(5) [OF s1] sample_lengths(5) [OF s2] show ?thesis by simp
qed

lemma reset_loop_n_sockets:
  assumes "reset_loop env js r = Inr r'"
  shows "n_sockets r' = n_sockets r"
  using assms
proof (induction js arbitrary: r)
  case Nil
  then show ?case by simp
next
  case (Cons j js)
  from Cons.prems obtain r1 where 1: "reset_socket r j (env j) = Inr r1"
    and 2: "reset_loop env js r1 = Inr r'"
    by (auto split: sum.splits)
  from Cons.IH [OF 2] reset_socket_n_sockets [OF 1] show ?case by simp
qed

lemma total_energy_loop_zero:
  assumes "\<forall>i \<in> set js. field (running_total r ! i) = 0"
  shows "total_energy_loop r field js p = p"
  using assms by (induction js arbitrary: p) simp_all

text \<open>
  What \<^verbatim>\<open>reset\<close> does establish: the running totals of the package, of the core plane
  and of DRAM are zero for every socket, with the start time just read, and the
  cumulative energy of these three domains is 0.
\<close>

lemma reset_total_energy_zero:
  assumes "reset r env = Inr r'"
  shows "pkg_total_energy r' = 0 \<and> pp0_total_energy r' = 0 \<and> dram_total_energy r' = 0"
proof -
  have n: "n_sockets r' = n_sockets r"
    using assms reset_loop_n_sockets by (simp add: reset_def)
  have "\<forall>i \<in> set [0 ..< nat (n_sockets r')]. pkg (running_total r' ! i) = 0 \<and>
      pp0 (running_total r' ! i) = 0 \<and> dram (running_total r' ! i) = 0"
    using reset_zeroes_three_domains [OF assms] n by simp
  then show ?thesis
    by (simp add: pkg_total_energy_def pp0_total_energy_def dram_total_energy_def
        total_energy_loop_zero)
qed

text \<open>Evaluations shared by the concrete theorems below.\<close>

lemma reset_idle_engine: "reset idle_engine (\<lambda>i. priming_io) = Inr primed_engine"
  by (simp add: reset_def reset_socket_def idle_engine_def priming_io_def primed_engine_def
      sample_def read_counters_def read_msr_def intel_dev_def one_socket_def
      snapshot_def msr_numbers update_running_total_def energy_delta_def Let_def max_int_64)

text \<open>
  The running total of the graphics plane is not among the fields \<^verbatim>\<open>reset\<close> zeroes:
  after an iteration it holds what the new object held, plus the two core-plane deltas
  of the priming samples (lemma \<open>reset_socket_pp1\<close>).

  C3. The claim that every domain's running total and cumulative energy is 0 after
  \<^verbatim>\<open>reset\<close>, evaluated on one socket whose new objects are zero-filled and whose
  core-plane counter reads 10 and then 20 at the two priming samples: the running total
  of the graphics plane is 20 and its cumulative energy \<open>20 / 16384\<close> joules.
\<close>

theorem reset_leaves_pp1_total:
  "reset idle_engine (\<lambda>i. priming_io) = Inr primed_engine
   \<and> pp1 (running_total primed_engine ! 0) = 20
   \<and> pp1_total_energy primed_engine = 20 / 16384"
  using reset_idle_engine
  by (simp add: pp1_total_energy_def primed_engine_def one_socket_def snapshot_def)

section \<open>Instantaneous power\<close>

lemma time_delta_same: "time_delta t t = 0"
  by (simp add: time_delta_def)

lemma power_zero_elapsed: "power r before after 0 = Some 0"
  by (simp add: power_def)

lemma power_never_divides_by_zero: "power r before after t \<noteq> None"
  by (simp add: power_def divide_checked_def Let_def)

lemma current_power_loop_zero_elapsed:
  assumes "\<forall>i \<in> set js. time_delta (tsc (prev_state r ! i)) (tsc (current_state r ! i)) = 0"
  shows "current_power_loop r field js p = Some p"
  using assms by (induction js arbitrary: p) (simp_all add: power_zero_elapsed)

lemma current_power_loop_defined: "current_power_loop r field js p \<noteq> None"
proof (induction js arbitrary: p)
  case Nil
  then show ?case by simp
next
  case (Cons i js)
  obtain pp where "power r (field (prev_state r ! i)) (field (current_state r ! i))
      (time_delta (tsc (prev_state r ! i)) (tsc (current_state r ! i))) = Some pp"
    using power_never_divides_by_zero by fastforce
  with Cons.IH show ?case by (simp add: Let_def)
qed

text \<open>
  With zero elapsed time on every socket, the loop of each query adds up to 0 without
  dividing, and the queries of the package, of the core plane and of DRAM return it.
\<close>

lemma current_power_zero_elapsed:
  assumes "\<forall>i < nat (n_sockets r).
     time_delta (tsc (prev_state r ! i)) (tsc (current_state r ! i)) = 0"
  shows "pkg_current_power r = Inr 0 \<and> pp0_current_power r = Inr 0 \<and>
         dram_current_power r = Inr 0"
  using assms
  by (simp add: pkg_current_power_def pp0_current_power_def dram_current_power_def
      current_power_loop_zero_elapsed)

lemma pp1_current_power_no_value: "pp1_current_power r = Inl Undefined"
  by (simp add: pp1_current_power_def split: option.splits)

text \<open>
  C6. The claim that every instantaneous-power query returns 0 when no time has elapsed
  between the previous and the current snapshot, evaluated on one socket whose two
  snapshots carry the same timestamp: three queries return 0; the loop of
  \<^verbatim>\<open>pp1_current_power\<close> computes 0 as well, and the function ends without returning
  it.
\<close>

theorem pp1_current_power_zero_elapsed:
  "time_delta (tsc (prev_state idle_engine ! 0)) (tsc (current_state idle_engine ! 0)) = 0
   \<and> pkg_current_power idle_engine = Inr 0
   \<and> pp0_current_power idle_engine = Inr 0
   \<and> dram_current_power idle_engine = Inr 0
   \<and> current_power_loop idle_engine pp1 [0 ..< nat (n_sockets idle_engine)] 0 = Some 0
   \<and> pp1_current_power idle_engine = Inl Undefined"
  by (simp add: pkg_current_power_def pp0_current_power_def dram_current_power_def
      pp1_current_power_def idle_engine_def one_socket_def snapshot_def time_delta_def
      power_def)

section \<open>Socket discovery\<close>

lemma fopen_Some: "fopen f = Some fp \<Longrightarrow> fp = f"
  by (cases f) (simp_all add: fopen_def)








text \<open>
  Numbers that do not fit an \<^verbatim>\<open>int\<close> leave the defined behaviour: on such a list of
  online CPUs nothing is promised, not even the exit.
\<close>

lemma get_n_sockets_number_out_of_range:
  "get_n_sockets sizes \<lparr>online = Text ''99999999999'', physical_package_id = (\<lambda>c. Missing)\<rparr>
     = Inl Undefined"
  by code_simp

lemma discover_Cons_Inr:
  assumes "discover max_line package_file (c # cs) i socks firsts = Inr res"
  obtains p rest where "fscanf_d (package_file c) = Converted p rest" "0 \<le> p"
    "nat p < length socks" "nat p < length firsts"
    "discover max_line package_file cs (i + 1)
       (if socks ! nat p = - 1 then socks[nat p := 1] else socks)
       (if socks ! nat p = - 1 then firsts[nat p := i] else firsts) = Inr res"
  using assms by (auto split: option.splits conversion.splits if_splits dest: fopen_Some)

lemma discover_Inr_range:
  assumes "discover max_line package_file cs i socks firsts = Inr res"
    and "k < length cs" and "fscanf_d (package_file (cs ! k)) = Converted p rest"
  shows "0 \<le> p \<and> nat p < length socks"
  using assms
proof (induction cs arbitrary: k i socks firsts)
  case Nil
  then show ?case by simp
next
  case (Cons c cs)
  from Cons.prems(1) obtain q rest' where q: "fscanf_d (package_file c) = Converted q rest'"
      "0 \<le> q" "nat q < length socks"
    and later: "discover max_line package_file cs (i + 1)
       (if socks ! nat q = - 1 then socks[nat q := 1] else socks)
       (if socks ! nat q = - 1 then firsts[nat q := i] else firsts) = Inr res"
    by (rule discover_Cons_Inr)
  show ?case
  proof (cases k)
    case 0
    with Cons.prems(3) q show ?thesis by simp
  next
    case (Suc k')
    with Cons.prems have "k' < length cs"
      "fscanf_d (package_file (cs ! k')) = Converted p rest"
      by simp_all
    from Cons.IH [OF later this] show ?thesis by (simp split: if_splits)
  qed
qed

lemma discover_settled:
  assumes "discover max_line package_file cs i socks firsts = Inr (socks', firsts')"
    and "0 \<le> p" and "socks ! nat p \<noteq> - 1"
  shows "socks' ! nat p = socks ! nat p \<and> firsts' ! nat p = firsts ! nat p"
  using assms
proof (induction cs arbitrary: i socks firsts)
  case Nil
  then show ?case by simp
next
  case (Cons c cs)
  from Cons.prems(1) obtain q rest' where q: "fscanf_d (package_file c) = Converted q rest'"
      "0 \<le> q" "nat q < length socks"
    and later: "discover max_line package_file cs (i + 1)
       (if socks ! nat q = - 1 then socks[nat q := 1] else socks)
       (if socks ! nat q = - 1 then firsts[nat q := i] else firsts) = Inr (socks', firsts')"
    by (rule discover_Cons_Inr)
  show ?case
  proof (cases "socks ! nat q = - 1")
    case True
    with Cons.prems(3) have ne: "nat q \<noteq> nat p" by auto
    from True later have "discover max_line package_file cs (i + 1) (socks[nat q := 1])
        (firsts[nat q := i]) = Inr (socks', firsts')" by simp
    from Cons.IH [OF this Cons.prems(2)] ne Cons.prems(3) show ?thesis by simp
  next
    case False
    with later have "discover max_line package_file cs (i + 1) socks firsts =
        Inr (socks', firsts')"
      by simp
    from Cons.IH [OF this Cons.prems(2,3)] show ?thesis .
  qed
qed

lemma discover_first_index:
  assumes "discover max_line package_file cs i socks firsts = Inr (socks', firsts')"
    and "k < length cs" and "fscanf_d (package_file (cs ! k)) = Converted p rest"
    and "\<forall>j < k. \<forall>rest'. fscanf_d (package_file (cs ! j)) \<noteq> Converted p rest'"
    and "socks ! nat p = - 1"
  shows "socks' ! nat p = 1 \<and> firsts' ! nat p = i + int k"
  using assms
proof (induction cs arbitrary: k i socks firsts)
  case Nil
  then show ?case by simp
next
  case (Cons c cs)
  from Cons.prems(1) obtain q rest' where q: "fscanf_d (package_file c) = Converted q rest'"
      "0 \<le> q" "nat q < length socks" "nat q < length firsts"
    and later: "discover max_line package_file cs (i + 1)
       (if socks ! nat q = - 1 then socks[nat q := 1] else socks)
       (if socks ! nat q = - 1 then firsts[nat q := i] else firsts) = Inr (socks', firsts')"
    by (rule discover_Cons_Inr)
  show ?case
  proof (cases k)
    case 0
    with Cons.prems(3) q have pq: "q = p" by simp
    with later Cons.prems(5) have r: "discover max_line package_file cs (i + 1)
        (socks[nat p := 1]) (firsts[nat p := i]) = Inr (socks', firsts')" by simp
    from discover_settled [OF r, of p] q pq 0 show ?thesis by simp
  next
    case (Suc k')
    with Cons.prems(4) q have ne: "q \<noteq> p" by auto
    with q Cons.prems(5) have np: "socks ! nat q = - 1 \<Longrightarrow> nat q \<noteq> nat p"
      using discover_Inr_range [OF Cons.prems(1) Cons.prems(2,3)] by auto
    have k': "k' < length cs" "fscanf_d (package_file (cs ! k')) = Converted p rest"
      "\<forall>j < k'. \<forall>rest'. fscanf_d (package_file (cs ! j)) \<noteq> Converted p rest'"
      using Cons.prems(2,3,4) Suc by auto
    show ?thesis
    proof (cases "socks ! nat q = - 1")
      case True
      with later have r: "discover max_line package_file cs (i + 1) (socks[nat q := 1])
          (firsts[nat q := i]) = Inr (socks', firsts')" by simp
      have "socks[nat q := 1] ! nat p = - 1"
        using np [OF True] Cons.prems(5) by simp
      from Cons.IH [OF r k' this] Suc show ?thesis by simp
    next
      case False
      with later have r: "discover max_line package_file cs (i + 1) socks firsts =
          Inr (socks', firsts')"
        by simp
      from Cons.IH [OF r k' Cons.prems(5)] Suc show ?thesis by simp
    qed
  qed
qed

text \<open>
  What the discovery loop records for a package: the position \<open>k\<close> in the array
  \<^verbatim>\<open>cpu\<close> of the first online CPU that belongs to it (the loop variable \<^verbatim>\<open>i\<close>), whatever
  the id \<^verbatim>\<open>cpu[k]\<close> of that CPU is.
\<close>

lemma get_n_sockets_records_index:
  assumes "get_n_sockets h env = Inr t"
    and "fgets (MAX_LINE h) (online env) = Some line"
    and "parse_tokens (MAX_CPU h) (strtok_all [] line) [] = Inr cpu"
    and "k < length cpu"
    and "fscanf_d (physical_package_id env (cpu ! k)) = Converted p rest"
    and "\<forall>j < k. \<forall>rest'. fscanf_d (physical_package_id env (cpu ! j)) \<noteq> Converted p rest'"
  shows "sockets t ! nat p = 1 \<and> first_lcoreid t ! nat p = int k"
proof -
  from assms(1) have op: "fopen (online env) = Some (online env)"
    by (auto simp add: get_n_sockets_def split: option.splits dest: fopen_Some)
  from assms(1,2,3) op obtain socks firsts where
    d: "discover (MAX_LINE h) (physical_package_id env) cpu 0
        (replicate (MAX_SOCKETS h) (- 1)) (replicate (MAX_SOCKETS h) (- 1)) =
        Inr (socks, firsts)"
    and t: "sockets t = socks" "first_lcoreid t = firsts"
    by (auto simp add: get_n_sockets_def split: sum.splits)
  from discover_Inr_range [OF d assms(4,5)] have "0 \<le> p" "nat p < MAX_SOCKETS h" by simp_all
  then have "replicate (MAX_SOCKETS h) (- 1 :: int) ! nat p = - 1" by simp
  from discover_first_index [OF d assms(4,5,6) this] t show ?thesis by simp
qed

text \<open>
  C5. The claim that discovery records, for each package, the id of the first online CPU
  belonging to it, evaluated with CPUs 4 to 7 online, 4 and 5 in package 0, 6 and 7 in
  package 1: the code finds the two sockets and records 0 and 2, the positions of CPUs 4
  and 6 in the list of online CPUs. On the machine of the specification's example, where
  CPU \<open>k\<close> is at position \<open>k\<close>, it records 0 and 2 as well.
\<close>

theorem get_n_sockets_machine_4_7:
  "fgets (MAX_LINE sizes) (online machine_4_7) = Some (''4-7'' @ [CHR 0x0A])
   \<and> parse_tokens (MAX_CPU sizes) (strtok_all [] (''4-7'' @ [CHR 0x0A])) [] = Inr [4, 5, 6, 7]
   \<and> get_n_sockets sizes machine_4_7 =
       Inr \<lparr>count = 2, sockets = [1, 1, - 1, - 1, - 1, - 1, - 1, - 1],
            first_lcoreid = [0, 2, - 1, - 1, - 1, - 1, - 1, - 1]\<rparr>"
  by code_simp

lemma get_n_sockets_machine_0_3:
  "get_n_sockets sizes machine_0_3 =
       Inr \<lparr>count = 2, sockets = [1, 1, - 1, - 1, - 1, - 1, - 1, - 1],
            first_lcoreid = [0, 2, - 1, - 1, - 1, - 1, - 1, - 1]\<rparr>"
  by code_simp

section \<open>Running totals along a sequence of samples\<close>

lemma unat_masked_32: "unat (v AND (4294967295 :: 64 word)) < 2 ^ 32"
proof -
  have "v AND 4294967295 \<le> (4294967295 :: 64 word)" by (rule word_and_le1)
  then have "unat (v AND 4294967295) \<le> unat (4294967295 :: 64 word)"
    by (simp only: word_le_nat_alt)
  then show ?thesis by simp
qed

lemma read_counters_32:
  assumes "read_counters r dev nx = Inr nx'" and "vendor r = 0 \<or> vendor r = 1"
  shows "counters32 nx'"
  using assms unat_masked_32
  by (auto simp add: read_counters_def counters32_def max_int_64 Let_def
      split: if_splits sum.splits)

lemma sample_counters32:
  assumes "sample r socket dev now = Inr r'" and "vendor r = 0 \<or> vendor r = 1"
  shows "counters32 (current_state r' ! socket)"
proof -
  from assms(1) obtain nx0 where rd: "read_counters r dev (next_state r ! socket) = Inr nx0"
    and cur: "current_state r' ! socket = nx0\<lparr>tsc := now\<rparr>"
    by (auto elim!: sample_Inr)
  from read_counters_32 [OF rd assms(2)] cur show ?thesis by (simp add: counters32_def)
qed

lemma sample_own_delta:
  assumes "sample r socket dev now = Inr r'"
  shows "pkg (running_total r' ! socket) = pkg (running_total r ! socket) +
          energy_delta (pkg (current_state r ! socket)) (pkg (current_state r' ! socket))"
    and "pp0 (running_total r' ! socket) = pp0 (running_total r ! socket) +
          energy_delta (pp0 (current_state r ! socket)) (pp0 (current_state r' ! socket))"
    and "dram (running_total r' ! socket) = dram (running_total r ! socket) +
          energy_delta (dram (current_state r ! socket)) (dram (current_state r' ! socket))"
  using assms by (auto elim!: sample_Inr simp add: update_running_total_def)

lemma sample_trace_hd: "\<exists>rest. sample_trace r socket ios = r # rest"
  by (cases ios) simp_all

text \<open>
  The induction over a sequence of samples, for a running total \<open>total\<close> that each
  sample increases by the delta of the counter \<open>counter\<close>: as long as the 64-bit total
  has room for the remaining samples, the totals along the trace never decrease, and
  where the counter's readings never decrease either, the last total is the first plus
  the sum of the per-step increases of the readings.
\<close>

lemma trace_accumulates:
  fixes total counter :: "rapl_state_t \<Rightarrow> 64 word"
  assumes step: "\<And>r dev now r'. sample r socket dev now = Inr r' \<Longrightarrow>
      total (running_total r' ! socket) = total (running_total r ! socket) +
        energy_delta (counter (current_state r ! socket)) (counter (current_state r' ! socket))"
    and c32: "\<And>s. counters32 s \<Longrightarrow> unat (counter s) < 2 ^ 32"
    and v: "vendor r = 0 \<or> vendor r = 1"
    and c: "counters32 (current_state r ! socket)"
    and room: "unat (total (running_total r ! socket)) + length ios * 4294967295 < 2 ^ 64"
  shows "sorted (totals total socket (sample_trace r socket ios)) \<and>
    (sorted (readings counter socket (sample_trace r socket ios)) \<longrightarrow>
       last (totals total socket (sample_trace r socket ios)) =
         unat (total (running_total r ! socket)) +
         step_deltas (readings counter socket (sample_trace r socket ios)))"
  using v c room
proof (induction ios arbitrary: r)
  case Nil
  then show ?case by (simp add: totals_def readings_def)
next
  case (Cons io ios)
  show ?case
  proof (cases "sample r socket (fst io) (snd io)")
    case (Inl e)
    then show ?thesis by (simp add: totals_def readings_def)
  next
    case (Inr r')
    obtain rest where tr: "sample_trace r' socket ios = r' # rest"
      using sample_trace_hd by blast
    have v': "vendor r' = 0 \<or> vendor r' = 1"
      using sample_lengths(6) [OF Inr] Cons.prems(1) by simp
    have c': "counters32 (current_state r' ! socket)"
      using sample_counters32 [OF Inr Cons.prems(1)] .
    let ?d = "energy_delta (counter (current_state r ! socket))
        (counter (current_state r' ! socket))"
    have b: "unat (counter (current_state r ! socket)) < 2 ^ 32"
        "unat (counter (current_state r' ! socket)) < 2 ^ 32"
      using c32 Cons.prems(2) c' by simp_all
    have d: "unat ?d < 2 ^ 32" using energy_delta_bound [OF b] .
    have "unat (total (running_total r ! socket)) + unat ?d < 2 ^ LENGTH(64)"
      using d Cons.prems(3) by simp
    then have "unat (total (running_total r ! socket) + ?d) =
        unat (total (running_total r ! socket)) + unat ?d"
      by (simp only: unat_add_lem [THEN iffD1])
    then have t': "unat (total (running_total r' ! socket)) =
        unat (total (running_total r ! socket)) + unat ?d"
      using step [OF Inr] by simp
    have room': "unat (total (running_total r' ! socket)) + length ios * 4294967295 < 2 ^ 64"
      using t' d Cons.prems(3) by simp
    note IH = Cons.IH [OF v' c' room']
    have s1: "sorted (totals total socket (sample_trace r socket (io # ios)))"
    proof -
      have "totals total socket (sample_trace r socket (io # ios)) =
          unat (total (running_total r ! socket)) #
          unat (total (running_total r' ! socket)) # totals total socket rest"
        using Inr tr by (simp add: totals_def)
      moreover have "sorted (unat (total (running_total r' ! socket)) # totals total socket rest)"
        using IH tr by (simp add: totals_def)
      moreover have "unat (total (running_total r ! socket)) \<le>
          unat (total (running_total r' ! socket))"
        using t' by simp
      ultimately show ?thesis by (simp only: sorted2)
    qed
    have s2: "last (totals total socket (sample_trace r socket (io # ios))) =
         unat (total (running_total r ! socket)) +
         step_deltas (readings counter socket (sample_trace r socket (io # ios)))"
      if srt: "sorted (readings counter socket (sample_trace r socket (io # ios)))"
    proof -
      from srt tr Inr have le: "unat (counter (current_state r ! socket)) \<le>
          unat (counter (current_state r' ! socket))"
        and srt': "sorted (readings counter socket (sample_trace r' socket ios))"
        by (simp_all add: readings_def)
      from le energy_delta_unat [OF b] have "unat ?d =
          unat (counter (current_state r' ! socket)) - unat (counter (current_state r ! socket))"
        by simp
      with IH srt' t' tr Inr show ?thesis
        by (simp add: totals_def readings_def)
    qed
    from s1 s2 show ?thesis by blast
  qed
qed

lemma sample_seq_trace:
  assumes "sample_seq r socket ios = Inr r'"
  shows "last (sample_trace r socket ios) = r' \<and>
         length (sample_trace r socket ios) = Suc (length ios)"
  using assms
proof (induction ios arbitrary: r)
  case Nil
  then show ?case by simp
next
  case (Cons io ios)
  from Cons.prems obtain r1 where 1: "sample r socket (fst io) (snd io) = Inr r1"
    and 2: "sample_seq r1 socket ios = Inr r'"
    by (auto split: sum.splits)
  obtain rest where "sample_trace r1 socket ios = r1 # rest"
    using sample_trace_hd by blast
  with Cons.IH [OF 2] 1 show ?case by simp
qed

lemma reset_stale_engine: "reset idle_engine (\<lambda>i. stale_io) = Inr stale_engine"
  by (simp add: reset_def reset_socket_def idle_engine_def priming_io_def stale_io_def
      stale_engine_def sample_def read_counters_def read_msr_def intel_dev_def one_socket_def
      snapshot_def msr_numbers update_running_total_def energy_delta_def Let_def max_int_64)

lemma trace_primed_engine:
  "sample_trace primed_engine 0 third_sample = [primed_engine, after_third]"
  by (simp add: third_sample_def primed_engine_def after_third_def
      sample_def read_counters_def read_msr_def intel_dev_def one_socket_def
      snapshot_def msr_numbers update_running_total_def energy_delta_def Let_def max_int_64)

lemma trace_stale_engine:
  "totals pp1 0 (sample_trace stale_engine 0 third_sample) = [18446744073709551615, 4]"
  by (simp add: third_sample_def stale_engine_def totals_def
      sample_def read_counters_def read_msr_def intel_dev_def one_socket_def
      snapshot_def msr_numbers update_running_total_def energy_delta_def Let_def max_int_64)

text \<open>
  Per domain, for a sequence of \<^verbatim>\<open>sample(socket)\<close> calls with no \<^verbatim>\<open>reset\<close> in between,
  on an Intel or AMD engine, started where the current snapshot holds 32-bit counters and
  where the domain's 64-bit running total has room for the sequence (the total plus
  \<open>2^32 - 1\<close> per call stays below \<open>2^64\<close>): the running total never decreases; for
  the package, the core plane and DRAM, when the readings of the domain's counter never
  decrease, the running total after the sequence is the running total before it plus the
  sum of the per-step deltas of that counter. The running total of the graphics plane
  follows the readings of the core-plane counter instead.
\<close>

lemma pkg_total_along_trace:
  assumes "vendor r = 0 \<or> vendor r = 1" and "counters32 (current_state r ! socket)"
    and "unat (pkg (running_total r ! socket)) + length ios * 4294967295 < 2 ^ 64"
  shows "sorted (totals pkg socket (sample_trace r socket ios)) \<and>
      (sorted (readings pkg socket (sample_trace r socket ios)) \<longrightarrow>
         last (totals pkg socket (sample_trace r socket ios)) =
           unat (pkg (running_total r ! socket)) +
           step_deltas (readings pkg socket (sample_trace r socket ios)))"
  by (rule trace_accumulates [where total = pkg and counter = pkg, OF _ _ assms])
    (simp_all add: sample_own_delta counters32_def)

lemma pp0_total_along_trace:
  assumes "vendor r = 0 \<or> vendor r = 1" and "counters32 (current_state r ! socket)"
    and "unat (pp0 (running_total r ! socket)) + length ios * 4294967295 < 2 ^ 64"
  shows "sorted (totals pp0 socket (sample_trace r socket ios)) \<and>
      (sorted (readings pp0 socket (sample_trace r socket ios)) \<longrightarrow>
         last (totals pp0 socket (sample_trace r socket ios)) =
           unat (pp0 (running_total r ! socket)) +
           step_deltas (readings pp0 socket (sample_trace r socket ios)))"
  by (rule trace_accumulates [where total = pp0 and counter = pp0, OF _ _ assms])
    (simp_all add: sample_own_delta counters32_def)

lemma dram_total_along_trace:
  assumes "vendor r = 0 \<or> vendor r = 1" and "counters32 (current_state r ! socket)"
    and "unat (dram (running_total r ! socket)) + length ios * 4294967295 < 2 ^ 64"
  shows "sorted (totals dram socket (sample_trace r socket ios)) \<and>
      (sorted (readings dram socket (sample_trace r socket ios)) \<longrightarrow>
         last (totals dram socket (sample_trace r socket ios)) =
           unat (dram (running_total r ! socket)) +
           step_deltas (readings dram socket (sample_trace r socket ios)))"
  by (rule trace_accumulates [where total = dram and counter = dram, OF _ _ assms])
    (simp_all add: sample_own_delta counters32_def)

lemma pp1_total_along_trace:
  assumes "vendor r = 0 \<or> vendor r = 1" and "counters32 (current_state r ! socket)"
    and "unat (pp1 (running_total r ! socket)) + length ios * 4294967295 < 2 ^ 64"
  shows "sorted (totals pp1 socket (sample_trace r socket ios)) \<and>
      (sorted (readings pp0 socket (sample_trace r socket ios)) \<longrightarrow>
         last (totals pp1 socket (sample_trace r socket ios)) =
           unat (pp1 (running_total r ! socket)) +
           step_deltas (readings pp0 socket (sample_trace r socket ios)))"
  by (rule trace_accumulates [where total = pp1 and counter = pp0, OF _ _ assms])
    (simp_all add: sample_pp1_step counters32_def)

text \<open>
  The graphics-plane total can decrease as well: when the new running-total object of
  \<^verbatim>\<open>reset\<close> holds \<open>2^64 - 21\<close> in its graphics-plane field, which \<^verbatim>\<open>reset\<close> does not
  zero, that total is \<open>2^64 - 1\<close> after \<^verbatim>\<open>reset\<close> and 4 after one more sample.
\<close>

lemma stale_pp1_total_wraps:
  "reset idle_engine (\<lambda>i. stale_io) = Inr stale_engine
   \<and> totals pp1 0 (sample_trace stale_engine 0 third_sample) = [18446744073709551615, 4]"
  using reset_stale_engine trace_stale_engine by simp

text \<open>
  C7. The claim that, over a sequence of samples with counters that strictly increase,
  the running total of each domain ends at the sum of the per-step deltas, evaluated for
  the graphics plane on the sample that follows \<^verbatim>\<open>reset\<close>: its counter goes from 6 to 8,
  a delta of 2, the core-plane counter from 20 to 25, and the graphics-plane total from
  20 to 25. The package total of the same sample goes from 0 to 20 with its counter going
  from 130 to 150.
\<close>

theorem pp1_total_not_sum_of_pp1_deltas:
  "reset idle_engine (\<lambda>i. priming_io) = Inr primed_engine
   \<and> sample_seq primed_engine 0 third_sample = Inr after_third
   \<and> sample_trace primed_engine 0 third_sample = [primed_engine, after_third]
   \<and> readings pp1 0 [primed_engine, after_third] = [6, 8]
   \<and> sorted_wrt (<) (readings pp1 0 [primed_engine, after_third])
   \<and> step_deltas (readings pp1 0 [primed_engine, after_third]) = 2
   \<and> readings pp0 0 [primed_engine, after_third] = [20, 25]
   \<and> totals pp1 0 [primed_engine, after_third] = [20, 25]
   \<and> last (totals pp1 0 [primed_engine, after_third]) \<noteq>
       hd (totals pp1 0 [primed_engine, after_third]) +
       step_deltas (readings pp1 0 [primed_engine, after_third])
   \<and> readings pkg 0 [primed_engine, after_third] = [130, 150]
   \<and> totals pkg 0 [primed_engine, after_third] = [0, 20]"
proof -
  have s: "sample_seq primed_engine 0 third_sample = Inr after_third"
    by (simp add: third_sample_def primed_engine_def after_third_def
      sample_def read_counters_def read_msr_def intel_dev_def one_socket_def
      snapshot_def msr_numbers update_running_total_def energy_delta_def Let_def max_int_64)
  have e: "readings pp1 0 [primed_engine, after_third] = [6, 8]"
    "readings pp0 0 [primed_engine, after_third] = [20, 25]"
    "totals pp1 0 [primed_engine, after_third] = [20, 25]"
    "readings pkg 0 [primed_engine, after_third] = [130, 150]"
    "totals pkg 0 [primed_engine, after_third] = [0, 20]"
    by (simp_all add: totals_def readings_def primed_engine_def after_third_def
        one_socket_def snapshot_def)
  show ?thesis
    using reset_idle_engine s trace_primed_engine by (simp add: e)
qed

end
